theory Spec2Isabelle
  imports Main "HOL-Library.Word"
begin

section \<open>The fuzzer core of fuzzer.cpp\<close>

text \<open>
  A shallow embedding of \<^verbatim>\<open>src/fuzzer.cpp\<close>. The members of the class
  \<^verbatim>\<open>Fuzzer\<close> that the functions share are the fields of the record \<open>fuzzer\<close>;
  every method takes the record and returns the updated one. The collaborators the
  file only calls (instrumentation, sample delivery, mutator, coverage server, file
  system, clock) are explicit parts of the state or parameters. A \<^verbatim>\<open>FATAL\<close> ends
  the process: it is the left summand of the result.
\<close>

subsection \<open>Samples\<close>

type_synonym byte = "8 word"

text \<open>
  Modelled from the spec: \<^verbatim>\<open>sample.h\<close> is not among the sources. A sample is an
  owned byte vector (\<^verbatim>\<open>bytes\<close>, \<^verbatim>\<open>size\<close>); \<open>size\<close> is the length of the list,
  and \<^verbatim>\<open>Trim\<close> truncates to a length and never extends.
\<close>

type_synonym Sample = "byte list"

definition Trim :: "Sample \<Rightarrow> nat \<Rightarrow> Sample" where
  "Trim s new_size = take new_size s"

subsection \<open>Coverage\<close>

text \<open>
  Modelled from the spec: \<^verbatim>\<open>coverage.h\<close> is not among the sources. Coverage is a
  set of (module, offset) edges, with the contracts of the spec's section 4.1:
  \<^verbatim>\<open>merge(A, B)\<close> is \<open>A \<leftarrow> A \<union> B\<close>, \<^verbatim>\<open>difference(A, B, C)\<close> is \<open>C \<leftarrow> B \ A\<close>,
  \<^verbatim>\<open>intersection(A, B, C)\<close> is \<open>C \<leftarrow> A \<inter> B\<close>, \<^verbatim>\<open>contains(super, sub)\<close> holds iff
  \<open>sub \<subseteq> super\<close>, and \<^verbatim>\<open>empty\<close> holds iff there is no edge. Each function
  returns the value of its output argument.
\<close>

type_synonym edge = "string \<times> nat"
type_synonym Coverage = "edge set"

definition MergeCoverage :: "Coverage \<Rightarrow> Coverage \<Rightarrow> Coverage" where
  "MergeCoverage coverage toAdd = coverage \<union> toAdd"

definition CoverageDifference :: "Coverage \<Rightarrow> Coverage \<Rightarrow> Coverage" where
  "CoverageDifference coverage1 coverage2 = coverage2 - coverage1"

definition CoverageIntersection :: "Coverage \<Rightarrow> Coverage \<Rightarrow> Coverage" where
  "CoverageIntersection coverage1 coverage2 = coverage1 \<inter> coverage2"

definition CoverageContains :: "Coverage \<Rightarrow> Coverage \<Rightarrow> bool" where
  "CoverageContains coverage1 coverage2 = (coverage2 \<subseteq> coverage1)"

subsection \<open>Paths, file names and files\<close>

text \<open>
  Modelled from the spec: \<^verbatim>\<open>directory.h\<close> is not among the sources. A path is the
  list of its components and \<^verbatim>\<open>DirJoin\<close> adds one, which gives the output tree of
  the spec's section 6.
\<close>

type_synonym path = "string list"

definition DirJoin :: "path \<Rightarrow> string \<Rightarrow> path" where
  "DirJoin dir name = dir @ [name]"

definition digit :: "nat \<Rightarrow> char" where
  "digit d = ''0123456789'' ! d"

text \<open>\<^verbatim>\<open>std::to_string\<close> of an unsigned value: its decimal digits.\<close>

function to_string_nat :: "nat \<Rightarrow> string" where
  "to_string_nat n =
     (if n < 10 then [digit n] else to_string_nat (n div 10) @ [digit (n mod 10)])"
  by pat_completeness auto
termination
  by (relation "measure (\<lambda>n. n)") auto

declare to_string_nat.simps [simp del]

text \<open>\<^verbatim>\<open>std::to_string\<close> of an \<^verbatim>\<open>int\<close>.\<close>

definition to_string :: "int \<Rightarrow> string" where
  "to_string i = (if i < 0 then CHR ''-'' # to_string_nat (nat (- i)) else to_string_nat (nat i))"

definition zero_pad :: "nat \<Rightarrow> string \<Rightarrow> string" where
  "zero_pad width s = replicate (width - length s) CHR ''0'' @ s"

text \<open>
  \<^verbatim>\<open>sprintf(fileindex, "%05lld", n)\<close> for a 64-bit counter: the value is read as
  signed and padded with zeros to five characters, the sign included.
\<close>

definition fileindex :: "64 word \<Rightarrow> string" where
  "fileindex n =
     (let v = sint n in
      if 0 \<le> v then zero_pad 5 (to_string_nat (nat v))
      else CHR ''-'' # zero_pad 4 (to_string_nat (nat (- v))))"

text \<open>
  Modelled from the spec: \<^verbatim>\<open>Sample::Save\<close> and \<^verbatim>\<open>Sample::Load\<close> are not among the
  sources. The files that hold samples are a map from paths to byte vectors; saving
  stores the sample under the path, loading a path that holds nothing leaves the new
  sample empty.
\<close>

definition Save :: "(path \<rightharpoonup> Sample) \<Rightarrow> Sample \<Rightarrow> path \<Rightarrow> (path \<rightharpoonup> Sample)" where
  "Save fs s outfile = fs(outfile \<mapsto> s)"

definition Load :: "(path \<rightharpoonup> Sample) \<Rightarrow> path \<Rightarrow> Sample" where
  "Load fs filename = (case fs filename of None \<Rightarrow> [] | Some s \<Rightarrow> s)"

text \<open>
  A file written with \<^verbatim>\<open>fwrite\<close> is the list of the objects written, in order:
  every \<^verbatim>\<open>fwrite(&x, sizeof(x), 1, fp)\<close> appends the object \<open>x\<close> and every
  \<^verbatim>\<open>fread\<close> takes the next one. The bytes of an object (of a \<^verbatim>\<open>double\<close>, of the
  coverage blob) are below this model. \<^verbatim>\<open>RestoreState\<close> ignores what \<^verbatim>\<open>fread\<close>
  returns, so a read that finds no object of its kind leaves the variable as it was.
\<close>

datatype fobject = U64 "64 word" | Priority int | CoverageBinary Coverage

type_synonym stream = "fobject list"

definition fwrite_u64 :: "64 word \<Rightarrow> stream \<Rightarrow> stream" where
  "fwrite_u64 x fp = fp @ [U64 x]"

definition fwrite_priority :: "int \<Rightarrow> stream \<Rightarrow> stream" where
  "fwrite_priority x fp = fp @ [Priority x]"

definition fread_u64 :: "64 word \<Rightarrow> stream \<Rightarrow> 64 word \<times> stream" where
  "fread_u64 x fp = (case fp of U64 y # rest \<Rightarrow> (y, rest) | _ \<Rightarrow> (x, fp))"

definition fread_priority :: "int \<Rightarrow> stream \<Rightarrow> int \<times> stream" where
  "fread_priority x fp = (case fp of Priority y # rest \<Rightarrow> (y, rest) | _ \<Rightarrow> (x, fp))"

text \<open>
  Modelled from the spec: \<^verbatim>\<open>WriteCoverageBinary\<close> and \<^verbatim>\<open>ReadCoverageBinary\<close> are not
  among the sources; the format is opaque and symmetric (section 4.1).
\<close>

definition WriteCoverageBinary :: "Coverage \<Rightarrow> stream \<Rightarrow> stream" where
  "WriteCoverageBinary coverage fp = fp @ [CoverageBinary coverage]"

definition ReadCoverageBinary :: "Coverage \<Rightarrow> stream \<Rightarrow> Coverage \<times> stream" where
  "ReadCoverageBinary coverage fp =
     (case fp of CoverageBinary c # rest \<Rightarrow> (c, rest) | _ \<Rightarrow> (coverage, fp))"

subsection \<open>Results, phases, queue entries and jobs\<close>

datatype RunResult = OK | CRASH | HANG | OTHER_ERROR

datatype FuzzerState = INPUT_SAMPLE_PROCESSING | SERVER_SAMPLE_PROCESSING | FUZZING

datatype fatal_error =
    Repeatedly_failed_to_deliver_sample
  | No_interesting_input_files
  | Error_saving_state
  | Error_restoring_state

text \<open>
  Modelled from the spec: \<^verbatim>\<open>fuzzer.h\<close> is not among the sources. The fields of a
  queue entry are those of the spec's section 3; \<open>priority\<close> is the signed
  integer it says, and the counters are unsigned 64-bit values as the snapshot format
  gives \<^verbatim>\<open>num_samples\<close>. The mutator's context is an opaque handle, \<open>None\<close> for
  \<^verbatim>\<open>NULL\<close>. The counters \<^verbatim>\<open>num_hangs\<close> and \<^verbatim>\<open>num_crashes\<close> of an entry are
  \<open>entry_num_hangs\<close> and \<open>entry_num_crashes\<close> here, the plain names being the
  fuzzer's own counters.
\<close>

record SampleQueueEntry =
  sample :: Sample
  sample_context :: "nat option"
  context_initialized :: bool
  priority :: int
  sample_index :: "64 word"
  num_runs :: "64 word"
  num_newcoverage :: "64 word"
  entry_num_hangs :: "64 word"
  entry_num_crashes :: "64 word"

text \<open>
  A job is its type with what the type carries: \<^verbatim>\<open>job->sample\<close> for
  \<^verbatim>\<open>PROCESS_SAMPLE\<close>, \<^verbatim>\<open>job->entry\<close> for \<^verbatim>\<open>FUZZ\<close>.
\<close>

datatype FuzzerJob = WAIT | PROCESS_SAMPLE Sample | FUZZ SampleQueueEntry

text \<open>
  The macros of \<^verbatim>\<open>fuzzer.h\<close> and the order of \<^verbatim>\<open>sample_queue\<close> are not among the
  sources: they are parameters. \<open>queue_top\<close> is what \<^verbatim>\<open>sample_queue.top()\<close>
  returns for the entries in the queue.
\<close>

record constants =
  SAMPLE_RETRY_TIMES :: nat
  MAX_IDENTICAL_CRASHES :: int
  TRIM_STEP_INITIAL :: nat
  CRASH_REPRODUCE_TIMES :: nat
  MAX_SAMPLE_SIZE :: nat
  queue_top :: "SampleQueueEntry list \<Rightarrow> SampleQueueEntry"

definition queue_push :: "SampleQueueEntry list \<Rightarrow> SampleQueueEntry \<Rightarrow> SampleQueueEntry list" where
  "queue_push q e = q @ [e]"

definition queue_pop :: "constants \<Rightarrow> SampleQueueEntry list \<Rightarrow> SampleQueueEntry list" where
  "queue_pop K q = remove1 (queue_top K q) q"

subsection \<open>The coverage server\<close>

text \<open>
  Modelled from the spec: \<^verbatim>\<open>client.h\<close> is not among the sources. The client keeps
  what was reported to it, and \<open>updates\<close> are the batches of samples the server will
  hand out, one batch for each \<^verbatim>\<open>GetUpdates\<close>, added to the list it is given.
\<close>

record CoverageClient =
  reported_coverage :: "(Coverage \<times> Sample option) list"
  reported_crashes :: "(Sample \<times> string) list"
  reported_execs :: "64 word list"
  updates :: "Sample list list"

definition ReportNewCoverage :: "CoverageClient \<Rightarrow> Coverage \<Rightarrow> Sample option \<Rightarrow> CoverageClient" where
  "ReportNewCoverage srv cov s = srv\<lparr>reported_coverage := reported_coverage srv @ [(cov, s)]\<rparr>"

definition ReportCrash :: "CoverageClient \<Rightarrow> Sample \<Rightarrow> string \<Rightarrow> CoverageClient" where
  "ReportCrash srv s crash_desc = srv\<lparr>reported_crashes := reported_crashes srv @ [(s, crash_desc)]\<rparr>"

definition GetUpdates :: "CoverageClient \<Rightarrow> Sample list \<Rightarrow> 64 word \<Rightarrow> CoverageClient \<times> Sample list" where
  "GetUpdates srv samples execs =
     (let srv1 = srv\<lparr>reported_execs := reported_execs srv @ [execs]\<rparr> in
      case updates srv1 of
        [] \<Rightarrow> (srv1, samples)
      | batch # rest \<Rightarrow> (srv1\<lparr>updates := rest\<rparr>, samples @ batch))"

subsection \<open>The state of the fuzzer and of a worker\<close>

text \<open>
  Modelled from the spec: the declaration of the class \<^verbatim>\<open>Fuzzer\<close> (\<^verbatim>\<open>fuzzer.h\<close>) is
  not among the sources. These are the members the functions below use, with the types
  of the spec's sections 3 and 4.8: the counters are unsigned 64-bit values, and
  \<open>min_priority\<close>, which is compared with and assigned from and to entry priorities,
  has their type. The file system is part of the state: \<open>files\<close> holds the sample
  files of the output tree, \<open>state_files\<close> the files written with \<^verbatim>\<open>fwrite\<close>, and
  \<open>fopen_wb\<close> says whether \<^verbatim>\<open>fopen(path, "wb")\<close> succeeds.
\<close>

record fuzzer =
  state :: FuzzerState
  input_files :: "path list"
  server_samples :: "Sample list"
  samples_pending :: int
  sample_queue :: "SampleQueueEntry list"
  all_samples :: "Sample list"
  fuzzer_coverage :: Coverage
  unique_crashes :: "string \<rightharpoonup> int"
  num_crashes :: "64 word"
  num_unique_crashes :: "64 word"
  num_hangs :: "64 word"
  num_samples :: "64 word"
  num_samples_discarded :: "64 word"
  total_execs :: "64 word"
  min_priority :: int
  save_hangs :: bool
  out_dir :: path
  crash_dir :: path
  hangs_dir :: path
  sample_dir :: path
  server :: "CoverageClient option"
  last_server_update_time_ms :: nat
  server_update_interval_ms :: nat
  files :: "path \<rightharpoonup> Sample"
  state_files :: "path \<rightharpoonup> stream"
  fopen_wb :: "path \<Rightarrow> bool"

text \<open>
  What the instrumentation and the sample delivery of a worker report for one execution
  of the target: whether \<^verbatim>\<open>DeliverSample\<close> succeeded, and whether it did again after
  \<^verbatim>\<open>CleanTarget\<close>; the result of \<^verbatim>\<open>Run\<close> (or \<^verbatim>\<open>RunWithCrashAnalysis\<close>); what
  \<^verbatim>\<open>GetCoverage\<close> returns; what \<^verbatim>\<open>GetCrashName\<close> returns.
\<close>

record Execution =
  delivered :: bool
  redelivered :: bool
  result :: RunResult
  coverage :: Coverage
  crash_name :: string

text \<open>
  A worker. The target is not deterministic: \<open>target tc k s\<close> is what the \<open>k\<close>-th
  execution of this worker reports when it runs on the sample \<open>s\<close>, and
  \<open>executions\<close> counts the executions so far. \<open>trace\<close> lists the calls of
  \<^verbatim>\<open>Run\<close> in \<^verbatim>\<open>RunSampleAndGetCoverage\<close>: the sample delivered, the result and the
  coverage collected. \<open>ignored_coverage\<close> is what \<^verbatim>\<open>IgnoreCoverage\<close> was given, and
  \<open>CreateSampleContext\<close> is the mutator's. The calls that only act on the target
  (\<^verbatim>\<open>CleanTarget\<close>, \<^verbatim>\<open>ClearCoverage\<close>) are not steps of the model: what the target
  does after them is what \<open>target\<close> says.
\<close>

record ThreadContext =
  all_samples_local :: "Sample list"
  target :: "nat \<Rightarrow> Sample \<Rightarrow> Execution"
  executions :: nat
  trace :: "(Sample \<times> RunResult \<times> Coverage) list"
  ignored_coverage :: Coverage
  CreateSampleContext :: "Sample \<Rightarrow> nat"

subsection \<open>RunSampleAndGetCoverage and TryReproduceCrash\<close>

text \<open>
  The loop of \<^verbatim>\<open>TryReproduceCrash\<close> with \<open>n\<close> rounds left. \<open>res\<close> is the local
  \<^verbatim>\<open>result\<close> with the crash name of the run that set it, \<open>None\<close> while it is not
  initialised. The timeouts only reach the instrumentation and are left out.
\<close>

fun TryReproduceCrash_loop ::
  "nat \<Rightarrow> fuzzer \<Rightarrow> ThreadContext \<Rightarrow> Sample \<Rightarrow> (RunResult \<times> string) option \<Rightarrow>
   fatal_error + ((RunResult \<times> string) option \<times> fuzzer \<times> ThreadContext)" where
  "TryReproduceCrash_loop 0 st tc s res = Inr (res, st, tc)"
| "TryReproduceCrash_loop (Suc n) st tc s res =
     (let st1 = st\<lparr>total_execs := total_execs st + 1\<rparr>;
          e = target tc (executions tc) s in
      if \<not> delivered e \<and> \<not> redelivered e then Inl Repeatedly_failed_to_deliver_sample
      else
        let tc1 = tc\<lparr>executions := executions tc + 1\<rparr> in
        if result e = CRASH then Inr (Some (result e, crash_name e), st1, tc1)
        else TryReproduceCrash_loop n st1 tc1 s (Some (result e, crash_name e)))"

definition TryReproduceCrash ::
  "constants \<Rightarrow> fuzzer \<Rightarrow> ThreadContext \<Rightarrow> Sample \<Rightarrow>
   fatal_error + ((RunResult \<times> string) option \<times> fuzzer \<times> ThreadContext)" where
  "TryReproduceCrash K st tc s = TryReproduceCrash_loop (CRASH_REPRODUCE_TIMES K) st tc s None"

text \<open>
  The crash registry, lines 227 to 246 of \<^verbatim>\<open>RunSampleAndGetCoverage\<close>: it returns
  \<^verbatim>\<open>should_save_crash\<close>, \<^verbatim>\<open>duplicates\<close> and the fuzzer.
\<close>

definition crash_registry_record :: "constants \<Rightarrow> fuzzer \<Rightarrow> string \<Rightarrow> bool \<times> int \<times> fuzzer" where
  "crash_registry_record K st crash_desc =
     (let st1 = st\<lparr>num_crashes := num_crashes st + 1\<rparr> in
      case unique_crashes st1 crash_desc of
        None \<Rightarrow>
          (True, 1, st1\<lparr>unique_crashes := (unique_crashes st1)(crash_desc \<mapsto> 1),
                         num_unique_crashes := num_unique_crashes st1 + 1\<rparr>)
      | Some c \<Rightarrow>
          if c < MAX_IDENTICAL_CRASHES K
          then (True, c + 1, st1\<lparr>unique_crashes := (unique_crashes st1)(crash_desc \<mapsto> c + 1)\<rparr>)
          else (False, 0, st1))"

text \<open>
  The branch \<^verbatim>\<open>result == CRASH\<close>, lines 217 to 262. \<open>crash_desc0\<close> is the crash name
  of the run that crashed.
\<close>

definition save_crash ::
  "constants \<Rightarrow> fuzzer \<Rightarrow> ThreadContext \<Rightarrow> Sample \<Rightarrow> string \<Rightarrow> fatal_error + (fuzzer \<times> ThreadContext)" where
  "save_crash K st tc s crash_desc0 =
     (case TryReproduceCrash K st tc s of
        Inl f \<Rightarrow> Inl f
      | Inr (r, st1, tc1) \<Rightarrow>
          let crash_desc =
                (case r of
                   Some (CRASH, name) \<Rightarrow> name
                 | _ \<Rightarrow> ''flaky_'' @ crash_desc0) in
          case crash_registry_record K st1 crash_desc of
            (should_save_crash, duplicates, st2) \<Rightarrow>
              if should_save_crash then
                let crash_filename = crash_desc @ ''_'' @ to_string duplicates;
                    outfile = DirJoin (crash_dir st2) crash_filename;
                    st3 = st2\<lparr>files := Save (files st2) s outfile\<rparr>;
                    st4 = (case server st3 of
                             None \<Rightarrow> st3
                           | Some srv \<Rightarrow> st3\<lparr>server := Some (ReportCrash srv s crash_desc)\<rparr>)
                in Inr (st4, tc1)
              else Inr (st2, tc1))"

text \<open>The branch \<^verbatim>\<open>result == HANG\<close>, lines 264 to 272.\<close>

definition save_hang :: "fuzzer \<Rightarrow> Sample \<Rightarrow> fuzzer" where
  "save_hang st s =
     (let st1 = (if save_hangs st then
                   let outfile = DirJoin (hangs_dir st) (''hang_'' @ to_string_nat (unat (num_hangs st)))
                   in st\<lparr>files := Save (files st) s outfile\<rparr>
                 else st)
      in st1\<lparr>num_hangs := num_hangs st1 + 1\<rparr>)"

definition RunSampleAndGetCoverage ::
  "constants \<Rightarrow> fuzzer \<Rightarrow> ThreadContext \<Rightarrow> Sample \<Rightarrow>
   fatal_error + (RunResult \<times> Coverage \<times> fuzzer \<times> ThreadContext)" where
  "RunSampleAndGetCoverage K st tc s =
     (let st1 = st\<lparr>total_execs := total_execs st + 1\<rparr>;
          e = target tc (executions tc) s in
      if \<not> delivered e \<and> \<not> redelivered e then Inl Repeatedly_failed_to_deliver_sample
      else
        let tc1 = tc\<lparr>executions := executions tc + 1,
                      trace := trace tc @ [(s, result e, coverage e)]\<rparr> in
        case (if result e = CRASH then save_crash K st1 tc1 s (crash_name e) else Inr (st1, tc1)) of
          Inl f \<Rightarrow> Inl f
        | Inr (st2, tc2) \<Rightarrow>
            let st3 = (if result e = HANG then save_hang st2 s else st2)
            in Inr (result e, coverage e, st3, tc2))"


subsection \<open>InterestingSample\<close>

text \<open>
  It returns the \<^verbatim>\<open>int\<close>, the caller's \<^verbatim>\<open>*stableCoverage\<close> and
  \<^verbatim>\<open>*variableCoverage\<close> as rewritten, and the fuzzer.
\<close>

definition InterestingSample ::
  "fuzzer \<Rightarrow> Coverage \<Rightarrow> Coverage \<Rightarrow> int \<times> Coverage \<times> Coverage \<times> fuzzer" where
  "InterestingSample st stableCoverage variableCoverage =
     (let new_stable_coverage = CoverageDifference (fuzzer_coverage st) stableCoverage;
          new_variable_coverage = CoverageDifference (fuzzer_coverage st) variableCoverage;
          st1 = st\<lparr>fuzzer_coverage := MergeCoverage (fuzzer_coverage st) new_stable_coverage\<rparr>;
          st2 = st1\<lparr>fuzzer_coverage := MergeCoverage (fuzzer_coverage st1) new_variable_coverage\<rparr>
      in (if new_stable_coverage \<noteq> {} then 1 else 0,
          new_stable_coverage, new_variable_coverage, st2))"

subsection \<open>TrimSample\<close>

text \<open>
  The loop \<^verbatim>\<open>while (1)\<close> of \<^verbatim>\<open>TrimSample\<close>, from its head, with the locals
  \<^verbatim>\<open>trim_step\<close>, \<^verbatim>\<open>trimmed_size\<close> and \<^verbatim>\<open>test_sample\<close>; it returns
  \<^verbatim>\<open>trimmed_size\<close>. The inner loop \<^verbatim>\<open>while (trim_step >= test_sample.size)\<close> is the
  second branch: one halving, and back to the head, where the size, which the halving
  does not change, is still above 1.
\<close>

function trim_loop ::
  "constants \<Rightarrow> fuzzer \<Rightarrow> ThreadContext \<Rightarrow> Sample \<Rightarrow> Coverage \<Rightarrow> nat \<Rightarrow> nat \<Rightarrow> Sample \<Rightarrow>
   fatal_error + (nat \<times> fuzzer \<times> ThreadContext)" where
  "trim_loop K st tc s stable_coverage trim_step trimmed_size test_sample =
     (if length test_sample \<le> 1 then Inr (trimmed_size, st, tc)
      else if trim_step \<ge> length test_sample
      then trim_loop K st tc s stable_coverage (trim_step div 2) trimmed_size test_sample
      else if trim_step = 0 then Inr (trimmed_size, st, tc)
      else
        let test_sample1 = Trim test_sample (length test_sample - trim_step) in
        case RunSampleAndGetCoverage K st tc test_sample1 of
          Inl f \<Rightarrow> Inl f
        | Inr (r, test_coverage, st1, tc1) \<Rightarrow>
            if r \<noteq> OK then Inr (trimmed_size, st1, tc1)
            else if \<not> CoverageContains test_coverage stable_coverage then
              (if trim_step div 2 = 0 then Inr (trimmed_size, st1, tc1)
               else trim_loop K st1 tc1 s stable_coverage (trim_step div 2) trimmed_size
                      (Trim s trimmed_size))
            else trim_loop K st1 tc1 s stable_coverage trim_step (length test_sample1) test_sample1)"
  by pat_completeness auto
termination
  by (relation "measures [\<lambda>(K, st, tc, s, stable, trim_step, trimmed_size, test_sample). trim_step,
                          \<lambda>(K, st, tc, s, stable, trim_step, trimmed_size, test_sample). length test_sample]")
     (auto simp: Trim_def)

declare trim_loop.simps [simp del]

definition TrimSample ::
  "constants \<Rightarrow> fuzzer \<Rightarrow> ThreadContext \<Rightarrow> Sample \<Rightarrow> Coverage \<Rightarrow>
   fatal_error + (Sample \<times> fuzzer \<times> ThreadContext)" where
  "TrimSample K st tc s stable_coverage =
     (if length s \<le> 1 then Inr (s, st, tc)
      else
        case trim_loop K st tc s stable_coverage (TRIM_STEP_INITIAL K) (length s) s of
          Inl f \<Rightarrow> Inl f
        | Inr (trimmed_size, st1, tc1) \<Rightarrow>
            Inr (if trimmed_size < length s then Trim s trimmed_size else s, st1, tc1))"

subsection \<open>RunSample\<close>

definition OutputFilter :: "Sample \<Rightarrow> Sample \<Rightarrow> bool \<times> Sample" where
  "OutputFilter original_sample output_sample = (False, output_sample)"

text \<open>
  The loop \<^verbatim>\<open>for (i = 0; i < SAMPLE_RETRY_TIMES; i++)\<close> of \<^verbatim>\<open>RunSample\<close> with \<open>n\<close>
  rounds left. A \<^verbatim>\<open>return result\<close> inside the loop is \<open>Inr (Inl _)\<close>; leaving the
  loop at its end is \<open>Inr (Inr _)\<close>, with the locals \<^verbatim>\<open>result\<close>,
  \<^verbatim>\<open>stableCoverage\<close> and \<^verbatim>\<open>totalCoverage\<close>.
\<close>

fun retry_loop ::
  "constants \<Rightarrow> nat \<Rightarrow> fuzzer \<Rightarrow> ThreadContext \<Rightarrow> Sample \<Rightarrow> RunResult \<Rightarrow> Coverage \<Rightarrow> Coverage \<Rightarrow>
   fatal_error + ((RunResult \<times> fuzzer \<times> ThreadContext) +
                  (RunResult \<times> Coverage \<times> Coverage \<times> fuzzer \<times> ThreadContext))" where
  "retry_loop K 0 st tc s r stableCoverage totalCoverage =
     Inr (Inr (r, stableCoverage, totalCoverage, st, tc))"
| "retry_loop K (Suc n) st tc s r stableCoverage totalCoverage =
     (case RunSampleAndGetCoverage K st tc s of
        Inl f \<Rightarrow> Inl f
      | Inr (r1, retryCoverage, st1, tc1) \<Rightarrow>
          if r1 \<noteq> OK then Inr (Inl (r1, st1, tc1))
          else
            let totalCoverage1 = MergeCoverage totalCoverage retryCoverage;
                tmpCoverage = CoverageIntersection stableCoverage retryCoverage
            in retry_loop K n st1 tc1 s r1 tmpCoverage totalCoverage1)"

text \<open>
  Lines 352 to 398 of \<^verbatim>\<open>RunSample\<close>: the sample is offered to
  \<^verbatim>\<open>InterestingSample\<close> and, when it is interesting, trimmed, saved and queued. It
  returns \<^verbatim>\<open>result\<close>, the value written to \<^verbatim>\<open>*has_new_coverage\<close> (a caller that
  passes \<^verbatim>\<open>NULL\<close> does not read it), the fuzzer and the worker.
\<close>

definition offer_sample ::
  "constants \<Rightarrow> fuzzer \<Rightarrow> ThreadContext \<Rightarrow> Sample \<Rightarrow> RunResult \<Rightarrow> Coverage \<Rightarrow> Coverage \<Rightarrow> Coverage \<Rightarrow>
   bool \<Rightarrow> bool \<Rightarrow> fatal_error + (RunResult \<times> int \<times> fuzzer \<times> ThreadContext)" where
  "offer_sample K st tc s r stableCoverage variableCoverage totalCoverage trim report_to_server =
     (case InterestingSample st stableCoverage variableCoverage of
        (interesting, stableCoverage1, variableCoverage1, st1) \<Rightarrow>
          (case (if interesting \<noteq> 0 then
                   (case (if trim then TrimSample K st1 tc s stableCoverage1 else Inr (s, st1, tc)) of
                      Inl f \<Rightarrow> Inl f
                    | Inr (s1, st2, tc1) \<Rightarrow>
                        let outfile = DirJoin (sample_dir st2) (''sample_'' @ fileindex (num_samples st2));
                            st3 = st2\<lparr>files := Save (files st2) s1 outfile,
                                        num_samples := num_samples st2 + 1\<rparr>;
                            st4 = (case server st3 of
                                     None \<Rightarrow> st3
                                   | Some srv \<Rightarrow>
                                       if report_to_server
                                       then st3\<lparr>server := Some (ReportNewCoverage srv stableCoverage1 (Some s1))\<rparr>
                                       else st3);
                            new_entry = \<lparr>sample = s1,
                                         sample_context = Some (CreateSampleContext tc1 s1),
                                         context_initialized = True,
                                         priority = 0,
                                         sample_index = num_samples st4 - 1,
                                         num_runs = 0, num_newcoverage = 0,
                                         entry_num_hangs = 0, entry_num_crashes = 0\<rparr>;
                            st5 = st4\<lparr>all_samples := all_samples st4 @ [s1],
                                        sample_queue := queue_push (sample_queue st4) new_entry\<rparr>
                        in Inr (1, st5, tc1))
                 else Inr (0, st1, tc)) of
             Inl f \<Rightarrow> Inl f
           | Inr (has_new_coverage, st6, tc2) \<Rightarrow>
               let st7 = (if variableCoverage1 \<noteq> {} then
                            (case server st6 of
                               None \<Rightarrow> st6
                             | Some srv \<Rightarrow>
                                 if report_to_server
                                 then st6\<lparr>server := Some (ReportNewCoverage srv variableCoverage1 None)\<rparr>
                                 else st6)
                          else st6);
                   tc3 = tc2\<lparr>ignored_coverage := ignored_coverage tc2 \<union> totalCoverage\<rparr>
               in Inr (r, has_new_coverage, st7, tc3)))"

definition RunSample ::
  "constants \<Rightarrow> fuzzer \<Rightarrow> ThreadContext \<Rightarrow> Sample \<Rightarrow> bool \<Rightarrow> bool \<Rightarrow>
   fatal_error + (RunResult \<times> int \<times> fuzzer \<times> ThreadContext)" where
  "RunSample K st tc s0 trim report_to_server =
     (let s = (case OutputFilter s0 [] of (filtered, filteredSample) \<Rightarrow>
                 if filtered then filteredSample else s0) in
      case RunSampleAndGetCoverage K st tc s of
        Inl f \<Rightarrow> Inl f
      | Inr (r, initialCoverage, st1, tc1) \<Rightarrow>
          if r \<noteq> OK then Inr (r, 0, st1, tc1)
          else if initialCoverage = {} then Inr (r, 0, st1, tc1)
          else
            case retry_loop K (SAMPLE_RETRY_TIMES K) st1 tc1 s r initialCoverage initialCoverage of
              Inl f \<Rightarrow> Inl f
            | Inr (Inl (r1, st2, tc2)) \<Rightarrow> Inr (r1, 0, st2, tc2)
            | Inr (Inr (r1, stableCoverage, totalCoverage, st2, tc2)) \<Rightarrow>
                let variableCoverage = CoverageDifference stableCoverage totalCoverage
                in offer_sample K st2 tc2 s r1 stableCoverage variableCoverage totalCoverage
                     trim report_to_server)"

subsection \<open>SynchronizeAndGetJob and JobDone\<close>

text \<open>
  \<open>now\<close> is what \<^verbatim>\<open>GetCurTime()\<close> returns during the call. Lines 482 to 490: the
  periodic pull of server samples while fuzzing.
\<close>

definition server_update_transition :: "nat \<Rightarrow> fuzzer \<Rightarrow> fuzzer" where
  "server_update_transition now st =
     (case server st of
        None \<Rightarrow> st
      | Some srv \<Rightarrow>
          if state st = FUZZING \<and>
             now > last_server_update_time_ms st + server_update_interval_ms st
          then
            (case GetUpdates srv (server_samples st) (total_execs st) of
               (srv1, samples) \<Rightarrow>
                 st\<lparr>last_server_update_time_ms := now, server := Some srv1,
                    server_samples := samples, state := SERVER_SAMPLE_PROCESSING\<rparr>)
          else st)"

text \<open>Lines 492 to 510: the end of the processing of the input samples.\<close>

definition input_phase_transition :: "nat \<Rightarrow> fuzzer \<Rightarrow> fatal_error + fuzzer" where
  "input_phase_transition now st =
     (if state st = INPUT_SAMPLE_PROCESSING then
        (if input_files st = [] \<and> samples_pending st = 0 then
           (if sample_queue st = [] then Inl No_interesting_input_files
            else
              (case server st of
                 Some srv \<Rightarrow>
                   let srv1 = ReportNewCoverage srv (fuzzer_coverage st) None in
                   (case GetUpdates srv1 (server_samples st) (total_execs st) of
                      (srv2, samples) \<Rightarrow>
                        Inr (st\<lparr>last_server_update_time_ms := now, server := Some srv2,
                                server_samples := samples, state := SERVER_SAMPLE_PROCESSING\<rparr>))
               | None \<Rightarrow> Inr (st\<lparr>state := FUZZING\<rparr>)))
         else Inr st)
      else Inr st)"

text \<open>Lines 512 to 516: the end of the processing of the server samples.\<close>

definition server_phase_transition :: "fuzzer \<Rightarrow> fuzzer" where
  "server_phase_transition st =
     (if state st = SERVER_SAMPLE_PROCESSING then
        (if server_samples st = [] \<and> samples_pending st = 0 then st\<lparr>state := FUZZING\<rparr>
         else st)
      else st)"

text \<open>Lines 518 to 557: the job for the phase the fuzzer is in.\<close>

definition dispense_job :: "constants \<Rightarrow> fuzzer \<Rightarrow> FuzzerJob \<times> fuzzer" where
  "dispense_job K st =
     (if state st = FUZZING then
        (if sample_queue st = [] then (WAIT, st)
         else
           let entry = queue_top K (sample_queue st);
               st1 = st\<lparr>sample_queue := queue_pop K (sample_queue st)\<rparr>;
               st2 = (if priority entry < min_priority st1
                      then st1\<lparr>min_priority := priority entry\<rparr> else st1)
           in (FUZZ entry, st2))
      else if state st = INPUT_SAMPLE_PROCESSING then
        (case input_files st of
           [] \<Rightarrow> (WAIT, st)
         | filename # rest \<Rightarrow>
             let s = Load (files st) filename;
                 s1 = (if length s > MAX_SAMPLE_SIZE K then Trim s (MAX_SAMPLE_SIZE K) else s)
             in (PROCESS_SAMPLE s1,
                 st\<lparr>input_files := rest, samples_pending := samples_pending st + 1\<rparr>))
      else if state st = SERVER_SAMPLE_PROCESSING then
        (case server_samples st of
           [] \<Rightarrow> (WAIT, st)
         | s # rest \<Rightarrow>
             (PROCESS_SAMPLE s,
              st\<lparr>server_samples := rest, samples_pending := samples_pending st + 1\<rparr>))
      else (WAIT, st))"

definition SynchronizeAndGetJob ::
  "constants \<Rightarrow> nat \<Rightarrow> fuzzer \<Rightarrow> ThreadContext \<Rightarrow> fatal_error + (FuzzerJob \<times> fuzzer \<times> ThreadContext)" where
  "SynchronizeAndGetJob K now st tc =
     (let tc1 = (if length (all_samples st) > length (all_samples_local tc)
                 then tc\<lparr>all_samples_local :=
                           all_samples_local tc @ drop (length (all_samples_local tc)) (all_samples st)\<rparr>
                 else tc);
          st1 = server_update_transition now st in
      case input_phase_transition now st1 of
        Inl f \<Rightarrow> Inl f
      | Inr st2 \<Rightarrow>
          let st3 = server_phase_transition st2 in
          case dispense_job K st3 of (job, st4) \<Rightarrow> Inr (job, st4, tc1))"

text \<open>
  \<open>job\<close> is the job as \<^verbatim>\<open>FuzzJob\<close> left it (the entry with its fields updated) and
  \<open>discard_sample\<close> is \<^verbatim>\<open>job->discard_sample\<close>.
\<close>

definition JobDone :: "fuzzer \<Rightarrow> FuzzerJob \<Rightarrow> bool \<Rightarrow> fuzzer" where
  "JobDone st job discard_sample =
     (case job of
        FUZZ entry \<Rightarrow>
          if discard_sample then st\<lparr>num_samples_discarded := num_samples_discarded st + 1\<rparr>
          else st\<lparr>sample_queue := queue_push (sample_queue st) entry\<rparr>
      | PROCESS_SAMPLE s \<Rightarrow> st\<lparr>samples_pending := samples_pending st - 1\<rparr>
      | WAIT \<Rightarrow> st)"

subsection \<open>AdjustSamplePriority\<close>

definition AdjustSamplePriority :: "SampleQueueEntry \<Rightarrow> int \<Rightarrow> SampleQueueEntry" where
  "AdjustSamplePriority entry found_new_coverage =
     (if found_new_coverage \<noteq> 0 then entry\<lparr>priority := 0\<rparr>
      else entry\<lparr>priority := priority entry - 1\<rparr>)"

subsection \<open>SaveState and RestoreState\<close>

definition SaveState :: "fuzzer \<Rightarrow> fatal_error + fuzzer" where
  "SaveState st =
     (if state st = INPUT_SAMPLE_PROCESSING then Inr st
      else
        let out_file = DirJoin (out_dir st) ''state.dat'' in
        if \<not> fopen_wb st out_file then Inl Error_saving_state
        else
          let fp = [];
              fp1 = fwrite_u64 (num_samples st) fp;
              fp2 = fwrite_u64 (total_execs st) fp1;
              fp3 = fwrite_priority (min_priority st) fp2;
              fp4 = WriteCoverageBinary (fuzzer_coverage st) fp3
          in Inr (st\<lparr>state_files := (state_files st)(out_file \<mapsto> fp4)\<rparr>))"

text \<open>
  The body of the loop \<^verbatim>\<open>for (uint64_t i = 0; i < num_samples; i++)\<close> of
  \<^verbatim>\<open>RestoreState\<close>, and the loop over the indices below \<^verbatim>\<open>num_samples\<close>.
\<close>

definition restore_sample :: "fuzzer \<Rightarrow> nat \<Rightarrow> fuzzer" where
  "restore_sample st i =
     (let outfile = DirJoin (sample_dir st) (''sample_'' @ fileindex (word_of_nat i));
          s = Load (files st) outfile;
          new_entry = \<lparr>sample = s, sample_context = None, context_initialized = False,
                       priority = min_priority st, sample_index = word_of_nat i,
                       num_runs = 0, num_newcoverage = 0,
                       entry_num_hangs = 0, entry_num_crashes = 0\<rparr>
      in st\<lparr>all_samples := all_samples st @ [s],
            sample_queue := queue_push (sample_queue st) new_entry\<rparr>)"

definition RestoreState :: "fuzzer \<Rightarrow> fatal_error + fuzzer" where
  "RestoreState st =
     (let out_file = DirJoin (out_dir st) ''state.dat'' in
      case state_files st out_file of
        None \<Rightarrow> Inl Error_restoring_state
      | Some fp \<Rightarrow>
          (case fread_u64 (num_samples st) fp of (n, fp1) \<Rightarrow>
           case fread_u64 (total_execs st) fp1 of (t, fp2) \<Rightarrow>
           case fread_priority (min_priority st) fp2 of (m, fp3) \<Rightarrow>
           case ReadCoverageBinary (fuzzer_coverage st) fp3 of (c, fp4) \<Rightarrow>
             let st1 = st\<lparr>num_samples := n, total_execs := t, min_priority := m,
                          fuzzer_coverage := c\<rparr>
             in Inr (foldl restore_sample st1 [0..<unat (num_samples st1)])))"

subsection \<open>MagicOutputFilter\<close>

text \<open>
  The loop \<^verbatim>\<open>for (i = 0; i < magic_size; i++)\<close> of \<^verbatim>\<open>MagicOutputFilter\<close>, from the
  index \<open>i\<close>: it leaves at \<^verbatim>\<open>i >= output_sample->size\<close> and writes
  \<^verbatim>\<open>magic[i]\<close> otherwise. \<open>magic_size\<close> is the length of \<open>magic\<close>.
\<close>

function magic_loop :: "nat \<Rightarrow> Sample \<Rightarrow> byte list \<Rightarrow> Sample" where
  "magic_loop i output_sample magic =
     (if i < length magic then
        (if i \<ge> length output_sample then output_sample
         else magic_loop (i + 1) (output_sample[i := magic ! i]) magic)
      else output_sample)"
  by pat_completeness auto
termination
  by (relation "measure (\<lambda>(i, out, magic). length magic - i)") auto

declare magic_loop.simps [simp del]

text \<open>
  \<^verbatim>\<open>MagicOutputFilter\<close> returns the flag and the output sample; \<open>output_sample\<close>
  is the caller's object as it was, returned untouched when the flag is false.
  \<^verbatim>\<open>memcmp\<close> over \<open>magic_size\<close> bytes is only evaluated when the sample has that
  many bytes.
\<close>

definition MagicOutputFilter :: "Sample \<Rightarrow> Sample \<Rightarrow> byte list \<Rightarrow> bool \<times> Sample" where
  "MagicOutputFilter original_sample output_sample magic =
     (if length original_sample \<ge> length magic \<and>
         take (length magic) original_sample = magic
      then (False, output_sample)
      else (True, magic_loop 0 original_sample magic))"

subsection \<open>The start of a run, and small instances\<close>

text \<open>
  The members as \<^verbatim>\<open>Run\<close>, \<^verbatim>\<open>ParseOptions\<close> and \<^verbatim>\<open>SetupDirectories\<close> leave them
  when the workers start, for a run that does not restore its state: \<open>out\<close> is the
  option \<^verbatim>\<open>-out\<close>, \<open>inputs\<close> the files found in the input directory, \<open>srv\<close> the
  client when \<^verbatim>\<open>-server\<close> is given. The literal \<^verbatim>\<open>1.79e+308\<close> is the integer
  \<open>179 * 10 ^ 306\<close>.
\<close>

definition Run_init :: "path \<Rightarrow> path list \<Rightarrow> CoverageClient option \<Rightarrow> fuzzer" where
  "Run_init out inputs srv =
     \<lparr>state = INPUT_SAMPLE_PROCESSING,
      input_files = inputs,
      server_samples = [],
      samples_pending = 0,
      sample_queue = [],
      all_samples = [],
      fuzzer_coverage = {},
      unique_crashes = Map.empty,
      num_crashes = 0,
      num_unique_crashes = 0,
      num_hangs = 0,
      num_samples = 0,
      num_samples_discarded = 0,
      total_execs = 0,
      min_priority = 179 * 10 ^ 306,
      save_hangs = False,
      out_dir = out,
      crash_dir = DirJoin out ''crashes'',
      hangs_dir = DirJoin out ''hangs'',
      sample_dir = DirJoin out ''samples'',
      server = srv,
      last_server_update_time_ms = 0,
      server_update_interval_ms = 5 * 60 * 1000,
      files = Map.empty,
      state_files = Map.empty,
      fopen_wb = (\<lambda>p. True)\<rparr>"

text \<open>
  A worker whose target reports what \<open>t\<close> says, before its first execution.
\<close>

definition new_worker :: "(nat \<Rightarrow> Sample \<Rightarrow> Execution) \<Rightarrow> ThreadContext" where
  "new_worker t =
     \<lparr>all_samples_local = [], target = t, executions = 0, trace = [],
      ignored_coverage = {}, CreateSampleContext = length\<rparr>"

text \<open>Values for the macros, and a queue that hands out its oldest entry.\<close>

definition small_constants :: constants where
  "small_constants =
     \<lparr>SAMPLE_RETRY_TIMES = 2, MAX_IDENTICAL_CRASHES = 2, TRIM_STEP_INITIAL = 2,
      CRASH_REPRODUCE_TIMES = 1, MAX_SAMPLE_SIZE = 8, queue_top = hd\<rparr>"

text \<open>A target that always hangs, covering nothing.\<close>

definition hanging_target :: "nat \<Rightarrow> Sample \<Rightarrow> Execution" where
  "hanging_target k s =
     \<lparr>delivered = True, redelivered = True, result = HANG, coverage = {}, crash_name = []\<rparr>"


text \<open>
  An execution that delivers the sample, returns \<^verbatim>\<open>OK\<close> or \<^verbatim>\<open>HANG\<close> and covers
  \<open>cov\<close>; and a target that reports the executions of a list one after the other,
  whatever the sample, and an error once the list is used up.
\<close>

definition ok_run :: "Coverage \<Rightarrow> Execution" where
  "ok_run cov =
     \<lparr>delivered = True, redelivered = True, result = OK, coverage = cov, crash_name = []\<rparr>"

definition hang_run :: "Coverage \<Rightarrow> Execution" where
  "hang_run cov =
     \<lparr>delivered = True, redelivered = True, result = HANG, coverage = cov, crash_name = []\<rparr>"

definition scripted_target :: "Execution list \<Rightarrow> nat \<Rightarrow> Sample \<Rightarrow> Execution" where
  "scripted_target script k s =
     (if k < length script then script ! k
      else \<lparr>delivered = True, redelivered = True, result = OTHER_ERROR, coverage = {},
            crash_name = []\<rparr>)"


text \<open>A queue entry as \<^verbatim>\<open>RestoreState\<close> builds it, and a client with one batch to hand out.\<close>

definition restored_entry :: "Sample \<Rightarrow> int \<Rightarrow> 64 word \<Rightarrow> SampleQueueEntry" where
  "restored_entry s p i =
     \<lparr>sample = s, sample_context = None, context_initialized = False, priority = p,
      sample_index = i, num_runs = 0, num_newcoverage = 0,
      entry_num_hangs = 0, entry_num_crashes = 0\<rparr>"


text \<open>
  The members that \<^verbatim>\<open>RunSampleAndGetCoverage\<close> may change, set to fixed values: two
  fuzzers agree on all other members exactly when their \<open>run_frame\<close> is the same.
\<close>

abbreviation (input) run_frame :: "fuzzer \<Rightarrow> fuzzer" where
  "run_frame st \<equiv> st\<lparr>total_execs := 0, num_crashes := 0, unique_crashes := Map.empty,
      num_unique_crashes := 0, files := Map.empty, server := None, num_hangs := 0\<rparr>"

section \<open>Properties\<close>

subsection \<open>MagicOutputFilter\<close>

lemma magic_loop_eq:
  "i \<le> length magic \<Longrightarrow>
   magic_loop i out magic =
     take i out @ take (min (length magic) (length out) - i) (drop i magic) @
     drop (max i (min (length magic) (length out))) out"
proof (induction i out magic rule: magic_loop.induct)
  case (1 i out magic)
  show ?case
  proof (cases "i < length magic \<and> i < length out")
    case False
    then show ?thesis using "1.prems"
      by (subst magic_loop.simps) (auto simp: min_def max_def)
  next
    case True
    let ?out = "out[i := magic ! i]"
    have step: "magic_loop i out magic = magic_loop (i + 1) ?out magic"
      using True by (subst magic_loop.simps) simp
    have ih: "magic_loop (i + 1) ?out magic =
        take (i + 1) ?out @ take (min (length magic) (length ?out) - (i + 1)) (drop (i + 1) magic) @
        drop (max (i + 1) (min (length magic) (length ?out))) ?out"
      using "1.IH" True by simp
    have a: "take (i + 1) ?out = take i out @ [magic ! i]"
      using True by (simp add: take_Suc_conv_app_nth)
    have b: "drop (max (i + 1) (min (length magic) (length ?out))) ?out =
             drop (max i (min (length magic) (length out))) out"
      using True by (auto simp: max_def min_def)
    have c: "take (min (length magic) (length out) - i) (drop i magic) =
             magic ! i # take (min (length magic) (length out) - (i + 1)) (drop (i + 1) magic)"
    proof -
      have "min (length magic) (length out) - i = Suc (min (length magic) (length out) - (i + 1))"
        using True by (auto simp: min_def)
      moreover have "drop i magic = magic ! i # drop (i + 1) magic"
        using True by (simp add: Cons_nth_drop_Suc)
      ultimately show ?thesis by simp
    qed
    show ?thesis
      unfolding step ih b unfolding a c by simp
  qed
qed

text \<open>
  C10. \<^verbatim>\<open>MagicOutputFilter\<close> returns false and leaves the output as it was exactly
  when the sample has at least as many bytes as the magic and starts with it; otherwise
  it returns true and the output is the sample with its first \<open>min k size\<close> bytes
  replaced by those of the magic: the same size, the remaining bytes those of the
  sample.
\<close>

theorem MagicOutputFilter_result:
  "MagicOutputFilter s out m =
     (if length m \<le> length s \<and> take (length m) s = m then (False, out)
      else (True, take (min (length m) (length s)) m @ drop (min (length m) (length s)) s))
   \<and> length (take (min (length m) (length s)) m @ drop (min (length m) (length s)) s) = length s"
  by (simp add: MagicOutputFilter_def magic_loop_eq min_def max_def)

subsection \<open>AdjustSamplePriority\<close>


subsection \<open>The instances\<close>

lemma Run_init_sel:
  "state (Run_init out inputs srv) = INPUT_SAMPLE_PROCESSING"
  "input_files (Run_init out inputs srv) = inputs"
  "server_samples (Run_init out inputs srv) = []"
  "samples_pending (Run_init out inputs srv) = 0"
  "sample_queue (Run_init out inputs srv) = []"
  "all_samples (Run_init out inputs srv) = []"
  "fuzzer_coverage (Run_init out inputs srv) = {}"
  "unique_crashes (Run_init out inputs srv) = Map.empty"
  "num_crashes (Run_init out inputs srv) = 0"
  "num_unique_crashes (Run_init out inputs srv) = 0"
  "num_hangs (Run_init out inputs srv) = 0"
  "num_samples (Run_init out inputs srv) = 0"
  "num_samples_discarded (Run_init out inputs srv) = 0"
  "total_execs (Run_init out inputs srv) = 0"
  "min_priority (Run_init out inputs srv) = 179 * 10 ^ 306"
  "save_hangs (Run_init out inputs srv) = False"
  "out_dir (Run_init out inputs srv) = out"
  "crash_dir (Run_init out inputs srv) = DirJoin out ''crashes''"
  "hangs_dir (Run_init out inputs srv) = DirJoin out ''hangs''"
  "sample_dir (Run_init out inputs srv) = DirJoin out ''samples''"
  "server (Run_init out inputs srv) = srv"
  "last_server_update_time_ms (Run_init out inputs srv) = 0"
  "server_update_interval_ms (Run_init out inputs srv) = 5 * 60 * 1000"
  "files (Run_init out inputs srv) = Map.empty"
  "state_files (Run_init out inputs srv) = Map.empty"
  "fopen_wb (Run_init out inputs srv) = (\<lambda>p. True)"
  by (simp_all only: Run_init_def fuzzer.select_convs)

lemma new_worker_sel:
  "all_samples_local (new_worker t) = []"
  "target (new_worker t) = t"
  "executions (new_worker t) = 0"
  "trace (new_worker t) = []"
  "ignored_coverage (new_worker t) = {}"
  "CreateSampleContext (new_worker t) = length"
  by (simp_all only: new_worker_def ThreadContext.select_convs)

lemma small_constants_sel:
  "SAMPLE_RETRY_TIMES small_constants = 2"
  "MAX_IDENTICAL_CRASHES small_constants = 2"
  "TRIM_STEP_INITIAL small_constants = 2"
  "CRASH_REPRODUCE_TIMES small_constants = 1"
  "MAX_SAMPLE_SIZE small_constants = 8"
  "queue_top small_constants = hd"
  by (simp_all only: small_constants_def constants.select_convs)

subsection \<open>Crashes and hangs in RunSampleAndGetCoverage\<close>







lemma TryReproduceCrash_loop_frame:
  "TryReproduceCrash_loop n st tc s res = Inr (r, st', tc') \<Longrightarrow>
   st'\<lparr>total_execs := 0\<rparr> = st\<lparr>total_execs := 0\<rparr> \<and>
   tc'\<lparr>executions := 0\<rparr> = tc\<lparr>executions := 0\<rparr>"
proof (induction n arbitrary: st tc res)
  case 0
  then show ?case by simp
next
  case (Suc n)
  let ?e = "target tc (executions tc) s"
  show ?case
  proof (cases "result ?e = CRASH")
    case True
    then show ?thesis using Suc.prems by (auto simp: Let_def split: if_splits)
  next
    case False
    then have "TryReproduceCrash_loop n (st\<lparr>total_execs := total_execs st + 1\<rparr>)
                 (tc\<lparr>executions := executions tc + 1\<rparr>) s (Some (result ?e, crash_name ?e))
               = Inr (r, st', tc')"
      using Suc.prems by (auto simp: Let_def split: if_splits)
    from Suc.IH [OF this] show ?thesis by simp
  qed
qed

lemma crash_registry_record_frame:
  "crash_registry_record K st name = (b, d, st') \<Longrightarrow>
   st'\<lparr>num_crashes := 0, unique_crashes := Map.empty, num_unique_crashes := 0\<rparr> =
   st\<lparr>num_crashes := 0, unique_crashes := Map.empty, num_unique_crashes := 0\<rparr>
   \<and> num_crashes st' = num_crashes st + 1"
  by (auto simp: crash_registry_record_def Let_def split: option.splits if_splits)

lemma save_crash_frame:
  assumes "save_crash K st tc s d0 = Inr (st', tc')"
  shows "run_frame st' = run_frame st
         \<and> tc'\<lparr>executions := 0\<rparr> = tc\<lparr>executions := 0\<rparr>
         \<and> num_crashes st' = num_crashes st + 1 \<and> num_hangs st' = num_hangs st"
proof -
  obtain r st1 tc1 where t: "TryReproduceCrash K st tc s = Inr (r, st1, tc1)"
    using assms by (auto simp: save_crash_def split: sum.splits)
  have f1: "st1\<lparr>total_execs := 0\<rparr> = st\<lparr>total_execs := 0\<rparr>"
           "tc1\<lparr>executions := 0\<rparr> = tc\<lparr>executions := 0\<rparr>"
    using TryReproduceCrash_loop_frame t unfolding TryReproduceCrash_def by blast+
  let ?d = "(case r of Some (CRASH, name) \<Rightarrow> name | _ \<Rightarrow> ''flaky_'' @ d0)"
  obtain b d st2 where rr: "crash_registry_record K st1 ?d = (b, d, st2)"
    by (cases "crash_registry_record K st1 ?d") auto
  note f2 = crash_registry_record_frame [OF rr]
  have f3: "st'\<lparr>files := Map.empty, server := None\<rparr> = st2\<lparr>files := Map.empty, server := None\<rparr>"
        "tc' = tc1"
    using assms t rr by (auto simp: save_crash_def Let_def split: option.splits if_splits)
  have a: "run_frame st' = run_frame st2"
    using arg_cong [OF f3(1), of run_frame] by simp
  have b: "run_frame st2 = run_frame st1"
    using arg_cong [OF conjunct1 [OF f2], of run_frame] by simp
  have c: "run_frame st1 = run_frame st"
    using arg_cong [OF f1(1), of run_frame] by simp
  have n: "num_crashes st' = num_crashes st2" "num_hangs st' = num_hangs st2"
    using arg_cong [OF f3(1), of num_crashes] arg_cong [OF f3(1), of num_hangs] by simp_all
  have n1: "num_crashes st1 = num_crashes st" "num_hangs st1 = num_hangs st"
    using arg_cong [OF f1(1), of num_crashes] arg_cong [OF f1(1), of num_hangs] by simp_all
  have n2: "num_hangs st2 = num_hangs st1"
    using arg_cong [OF conjunct1 [OF f2], of num_hangs] by simp
  show ?thesis using a b c n n1 n2 f2 f1(2) f3(2) by simp
qed


lemma RunSampleAndGetCoverage_frame:
  assumes "RunSampleAndGetCoverage K st tc s = Inr (r, c, st', tc')"
  shows "r = result (target tc (executions tc) s) \<and> c = coverage (target tc (executions tc) s)
         \<and> run_frame st' = run_frame st
         \<and> tc'\<lparr>executions := 0, trace := []\<rparr> = tc\<lparr>executions := 0, trace := []\<rparr>
         \<and> trace tc' = trace tc @ [(s, r, c)]
         \<and> num_crashes st' = num_crashes st + (if r = CRASH then 1 else 0)
         \<and> num_hangs st' = num_hangs st + (if r = HANG then 1 else 0)"
proof -
  let ?e = "target tc (executions tc) s"
  let ?st1 = "st\<lparr>total_execs := total_execs st + 1\<rparr>"
  let ?tc1 = "tc\<lparr>executions := executions tc + 1, trace := trace tc @ [(s, result ?e, coverage ?e)]\<rparr>"
  have rc: "r = result ?e" "c = coverage ?e"
    using assms by (auto simp: RunSampleAndGetCoverage_def Let_def split: if_splits sum.splits)
  show ?thesis
  proof (cases "result ?e = CRASH")
    case True
    obtain st2 tc2 where sc: "save_crash K ?st1 ?tc1 s (crash_name ?e) = Inr (st2, tc2)"
      and eq: "st' = st2" "tc' = tc2"
      using assms True
      by (auto simp: RunSampleAndGetCoverage_def Let_def split: if_splits sum.splits)
    note f = save_crash_frame [OF sc]
    have "trace tc2 = trace ?tc1"
      using arg_cong [OF conjunct1 [OF conjunct2 [OF f]], of trace] by simp
    moreover have "tc2\<lparr>executions := 0, trace := []\<rparr> = ?tc1\<lparr>executions := 0, trace := []\<rparr>"
      using arg_cong [OF conjunct1 [OF conjunct2 [OF f]], of "\<lambda>t. t\<lparr>trace := []\<rparr>"] by simp
    ultimately show ?thesis using f rc eq True by simp
  next
    case False
    then have "st' = (if result ?e = HANG then save_hang ?st1 s else ?st1)" "tc' = ?tc1"
      using assms by (auto simp: RunSampleAndGetCoverage_def Let_def split: if_splits sum.splits)
    then show ?thesis using rc False by (auto simp: save_hang_def Save_def Let_def)
  qed
qed

lemma RunSampleAndGetCoverage_OK:
  assumes "result (target tc (executions tc) s) = OK"
    and "delivered (target tc (executions tc) s) \<or> redelivered (target tc (executions tc) s)"
  shows "RunSampleAndGetCoverage K st tc s =
     Inr (OK, coverage (target tc (executions tc) s),
          st\<lparr>total_execs := total_execs st + 1\<rparr>,
          tc\<lparr>executions := executions tc + 1,
             trace := trace tc @ [(s, OK, coverage (target tc (executions tc) s))]\<rparr>)"
  using assms by (auto simp: RunSampleAndGetCoverage_def Let_def)

lemma RunSampleAndGetCoverage_HANG:
  assumes "result (target tc (executions tc) s) = HANG"
    and "delivered (target tc (executions tc) s) \<or> redelivered (target tc (executions tc) s)"
  shows "RunSampleAndGetCoverage K st tc s =
     Inr (HANG, coverage (target tc (executions tc) s),
          st\<lparr>total_execs := total_execs st + 1,
             files := (if save_hangs st
                       then (files st)(DirJoin (hangs_dir st)
                              (''hang_'' @ to_string_nat (unat (num_hangs st))) \<mapsto> s)
                       else files st),
             num_hangs := num_hangs st + 1\<rparr>,
          tc\<lparr>executions := executions tc + 1,
             trace := trace tc @ [(s, HANG, coverage (target tc (executions tc) s))]\<rparr>)"
  using assms by (auto simp: RunSampleAndGetCoverage_def save_hang_def Save_def Let_def)




text \<open>
  C9 as the claim states it fails: the first hang of a run with \<^verbatim>\<open>save_hangs\<close> set is
  saved as \<^verbatim>\<open>hang_0\<close>; \<^verbatim>\<open>num_hangs\<close> is 1 afterwards, which would name the file
  \<^verbatim>\<open>hang_1\<close>, and there is no such file.
\<close>

theorem hang_file_counterexample:
  "RunSampleAndGetCoverage small_constants
     ((Run_init [''out''] [] None)\<lparr>save_hangs := True\<rparr>) (new_worker hanging_target) [1, 2]
   = Inr (HANG, {},
          (Run_init [''out''] [] None)
            \<lparr>save_hangs := True, total_execs := 1,
             files := [[''out'', ''hangs'', ''hang_0''] \<mapsto> [1, 2]], num_hangs := 1\<rparr>,
          (new_worker hanging_target)\<lparr>executions := 1, trace := [([1, 2], HANG, {})]\<rparr>)
   \<and> ''hang_'' @ to_string_nat (unat (num_hangs ((Run_init [''out''] [] None)
            \<lparr>save_hangs := True, total_execs := 1,
             files := [[''out'', ''hangs'', ''hang_0''] \<mapsto> [1, 2]], num_hangs := 1\<rparr>)))
       = ''hang_1''
   \<and> files ((Run_init [''out''] [] None)
            \<lparr>save_hangs := True, total_execs := 1,
             files := [[''out'', ''hangs'', ''hang_0''] \<mapsto> [1, 2]], num_hangs := 1\<rparr>)
         [''out'', ''hangs'', ''hang_1''] = None"
proof -
  have hg: "result (target (new_worker hanging_target) (executions (new_worker hanging_target)) [1, 2]) = HANG"
    "delivered (target (new_worker hanging_target) (executions (new_worker hanging_target)) [1, 2]) \<or>
     redelivered (target (new_worker hanging_target) (executions (new_worker hanging_target)) [1, 2])"
    by (simp_all add: new_worker_sel hanging_target_def)
  show ?thesis
    by (simp add: RunSampleAndGetCoverage_HANG [OF hg] Run_init_sel new_worker_sel hanging_target_def
        DirJoin_def to_string_nat.simps digit_def)
qed

text \<open>
  C9, amended. When a run is classified \<^verbatim>\<open>HANG\<close>, \<^verbatim>\<open>num_hangs\<close> is incremented
  and, if \<^verbatim>\<open>save_hangs\<close> is set, the sample is saved as \<^verbatim>\<open>hang_<n>\<close> in the hangs
  directory, where \<open>n\<close> is the value of \<^verbatim>\<open>num_hangs\<close> before the increment: the
  number of hangs counted before this one.
\<close>

theorem hang_file_name:
  assumes "result (target tc (executions tc) s) = HANG"
    and "delivered (target tc (executions tc) s) \<or> redelivered (target tc (executions tc) s)"
  shows "\<exists>c st' tc'. RunSampleAndGetCoverage K st tc s = Inr (HANG, c, st', tc')
     \<and> num_hangs st' = num_hangs st + 1
     \<and> files st' =
         (if save_hangs st
          then (files st)(DirJoin (hangs_dir st) (''hang_'' @ to_string_nat (unat (num_hangs st))) \<mapsto> s)
          else files st)"
  using assms by (simp add: RunSampleAndGetCoverage_HANG)

theorem hang_file_name_witness:
  "result (target (new_worker hanging_target) (executions (new_worker hanging_target)) [1, 2]) = HANG
   \<and> delivered (target (new_worker hanging_target) (executions (new_worker hanging_target)) [1, 2])
   \<and> (\<exists>c st' tc'.
        RunSampleAndGetCoverage small_constants ((Run_init [''out''] [] None)\<lparr>save_hangs := True\<rparr>)
          (new_worker hanging_target) [1, 2] = Inr (HANG, c, st', tc')
        \<and> num_hangs st' = 1
        \<and> files st' = [[''out'', ''hangs'', ''hang_0''] \<mapsto> [1, 2]])"
  using hang_file_name [of "new_worker hanging_target" "[1, 2]" small_constants
      "(Run_init [''out''] [] None)\<lparr>save_hangs := True\<rparr>"]
  by (simp add: Run_init_sel new_worker_sel hanging_target_def DirJoin_def
        to_string_nat.simps digit_def)

subsection \<open>Job acquisition\<close>

lemma restored_entry_sel:
  "sample (restored_entry s p i) = s"
  "sample_context (restored_entry s p i) = None"
  "context_initialized (restored_entry s p i) = False"
  "priority (restored_entry s p i) = p"
  "sample_index (restored_entry s p i) = i"
  by (simp_all only: restored_entry_def SampleQueueEntry.select_convs)

lemma dispense_job_FUZZ:
  "dispense_job K st = (FUZZ e, st') \<Longrightarrow>
   state st = FUZZING \<and> state st' = FUZZING \<and> sample_queue st \<noteq> [] \<and>
   e = queue_top K (sample_queue st) \<and>
   min_priority st' = min (min_priority st) (priority e)"
  by (auto simp: dispense_job_def Let_def split: if_splits list.splits)

lemma dispense_job_min_priority:
  "dispense_job K st = (job, st') \<Longrightarrow> min_priority st' \<le> min_priority st \<and> state st' = state st"
  by (auto simp: dispense_job_def Let_def split: if_splits list.splits)

lemma server_update_transition_min_priority:
  "min_priority (server_update_transition now st) = min_priority st"
  by (auto simp: server_update_transition_def split: option.splits prod.splits)

lemma input_phase_transition_min_priority:
  "input_phase_transition now st = Inr st' \<Longrightarrow> min_priority st' = min_priority st"
  by (auto simp: input_phase_transition_def Let_def split: if_splits option.splits prod.splits)

lemma server_phase_transition_min_priority:
  "min_priority (server_phase_transition st) = min_priority st"
  by (simp add: server_phase_transition_def)

lemma SynchronizeAndGetJob_Inr:
  assumes "SynchronizeAndGetJob K now st tc = Inr (job, st', tc')"
  shows "\<exists>st2. input_phase_transition now (server_update_transition now st) = Inr st2 \<and>
           dispense_job K (server_phase_transition st2) = (job, st')"
  using assms by (auto simp: SynchronizeAndGetJob_def Let_def split: sum.splits prod.splits)




subsection \<open>min_priority\<close>

text \<open>
  C8 as the claim states it fails: an entry of priority 0 is popped, which lowers
  \<^verbatim>\<open>min_priority\<close> to 0; the first mutated sample of the \<^verbatim>\<open>FUZZ\<close> job hangs, so
  \<^verbatim>\<open>RunSample\<close> reports no new coverage and \<^verbatim>\<open>AdjustSamplePriority\<close> lowers the
  priority of the entry to -1, below \<^verbatim>\<open>min_priority\<close>, while the entry is outside the
  queue.
\<close>

theorem min_priority_counterexample:
  "SynchronizeAndGetJob small_constants 5
     ((Run_init [''out''] [] None)\<lparr>sample_queue := [restored_entry [1] 0 0], state := FUZZING\<rparr>)
     (new_worker hanging_target)
   = Inr (FUZZ (restored_entry [1] 0 0),
          (Run_init [''out''] [] None)\<lparr>sample_queue := [], state := FUZZING, min_priority := 0\<rparr>,
          new_worker hanging_target)
   \<and> RunSample small_constants
        ((Run_init [''out''] [] None)\<lparr>sample_queue := [], state := FUZZING, min_priority := 0\<rparr>)
        (new_worker hanging_target) [5] True True
     = Inr (HANG, 0,
            (Run_init [''out''] [] None)\<lparr>sample_queue := [], state := FUZZING, min_priority := 0,
               total_execs := 1, num_hangs := 1\<rparr>,
            (new_worker hanging_target)\<lparr>executions := 1, trace := [([5], HANG, {})]\<rparr>)
   \<and> priority (AdjustSamplePriority (restored_entry [1] 0 0) 0) = - 1
   \<and> \<not> min_priority ((Run_init [''out''] [] None)\<lparr>sample_queue := [], state := FUZZING,
                          min_priority := 0, total_execs := 1, num_hangs := 1\<rparr>)
         \<le> priority (AdjustSamplePriority (restored_entry [1] 0 0) 0)"
proof -
  have hg: "result (target (new_worker hanging_target) (executions (new_worker hanging_target)) [5]) = HANG"
    "delivered (target (new_worker hanging_target) (executions (new_worker hanging_target)) [5]) \<or>
     redelivered (target (new_worker hanging_target) (executions (new_worker hanging_target)) [5])"
    by (simp_all add: new_worker_sel hanging_target_def)
  show ?thesis
    by (simp add: SynchronizeAndGetJob_def server_update_transition_def input_phase_transition_def
        server_phase_transition_def dispense_job_def queue_pop_def AdjustSamplePriority_def
        RunSample_def OutputFilter_def RunSampleAndGetCoverage_HANG [OF hg]
        small_constants_sel Run_init_sel new_worker_sel restored_entry_sel hanging_target_def Let_def)
qed

text \<open>
  C8, amended. When an entry is popped for a \<^verbatim>\<open>FUZZ\<close> job, \<^verbatim>\<open>min_priority\<close> is
  lowered to the priority of the entry if that is smaller, so that \<^verbatim>\<open>min_priority\<close> is
  at most the priority the entry has at that moment. Job acquisition never raises
  \<^verbatim>\<open>min_priority\<close>, and \<^verbatim>\<open>JobDone\<close> does not change it. (Nothing is said of the
  priority of the entry while \<^verbatim>\<open>AdjustSamplePriority\<close> changes it during the job.)
\<close>

theorem min_priority_at_pop:
  "(SynchronizeAndGetJob K now st tc = Inr (FUZZ e, st', tc') \<longrightarrow>
      min_priority st' = min (min_priority st) (priority e) \<and> min_priority st' \<le> priority e)
   \<and> (SynchronizeAndGetJob K now st tc = Inr (job, st', tc') \<longrightarrow> min_priority st' \<le> min_priority st)
   \<and> min_priority (JobDone st job discard_sample) = min_priority st"
proof (intro conjI impI)
  assume "SynchronizeAndGetJob K now st tc = Inr (FUZZ e, st', tc')"
  from SynchronizeAndGetJob_Inr [OF this] obtain st2 where
    i: "input_phase_transition now (server_update_transition now st) = Inr st2" and
    d: "dispense_job K (server_phase_transition st2) = (FUZZ e, st')" by blast
  have "min_priority (server_phase_transition st2) = min_priority st"
    using input_phase_transition_min_priority [OF i]
    by (simp add: server_phase_transition_min_priority server_update_transition_min_priority)
  then show m: "min_priority st' = min (min_priority st) (priority e)"
    using dispense_job_FUZZ [OF d] by simp
  show "min_priority st' \<le> priority e" unfolding m by simp
next
  assume "SynchronizeAndGetJob K now st tc = Inr (job, st', tc')"
  from SynchronizeAndGetJob_Inr [OF this] obtain st2 where
    i: "input_phase_transition now (server_update_transition now st) = Inr st2" and
    d: "dispense_job K (server_phase_transition st2) = (job, st')" by blast
  have "min_priority (server_phase_transition st2) = min_priority st"
    using input_phase_transition_min_priority [OF i]
    by (simp add: server_phase_transition_min_priority server_update_transition_min_priority)
  then show "min_priority st' \<le> min_priority st"
    using dispense_job_min_priority [OF d] by simp
next
  show "min_priority (JobDone st job discard_sample) = min_priority st"
    by (simp add: JobDone_def split: FuzzerJob.splits)
qed

theorem min_priority_at_pop_witness:
  "SynchronizeAndGetJob small_constants 5
     ((Run_init [''out''] [] None)\<lparr>sample_queue := [restored_entry [1] (- 2) 0], state := FUZZING\<rparr>)
     (new_worker hanging_target)
   = Inr (FUZZ (restored_entry [1] (- 2) 0),
          (Run_init [''out''] [] None)\<lparr>sample_queue := [], state := FUZZING, min_priority := - 2\<rparr>,
          new_worker hanging_target)
   \<and> min_priority ((Run_init [''out''] [] None)\<lparr>sample_queue := [], state := FUZZING,
                      min_priority := - 2\<rparr>)
       = min (min_priority ((Run_init [''out''] [] None)
                \<lparr>sample_queue := [restored_entry [1] (- 2) 0], state := FUZZING\<rparr>))
             (priority (restored_entry [1] (- 2) 0))
   \<and> min_priority ((Run_init [''out''] [] None)\<lparr>sample_queue := [], state := FUZZING,
                      min_priority := - 2\<rparr>)
       \<le> priority (restored_entry [1] (- 2) 0)
   \<and> min_priority ((Run_init [''out''] [] None)\<lparr>sample_queue := [], state := FUZZING,
                      min_priority := - 2\<rparr>)
       \<le> min_priority ((Run_init [''out''] [] None)
                \<lparr>sample_queue := [restored_entry [1] (- 2) 0], state := FUZZING\<rparr>)"
proof -
  let ?st = "(Run_init [''out''] [] None)\<lparr>sample_queue := [restored_entry [1] (- 2) 0], state := FUZZING\<rparr>"
  let ?st' = "(Run_init [''out''] [] None)\<lparr>sample_queue := [], state := FUZZING, min_priority := - 2\<rparr>"
  let ?tc = "new_worker hanging_target"
  have s: "SynchronizeAndGetJob small_constants 5 ?st ?tc = Inr (FUZZ (restored_entry [1] (- 2) 0), ?st', ?tc)"
    by (simp add: SynchronizeAndGetJob_def server_update_transition_def input_phase_transition_def
        server_phase_transition_def dispense_job_def queue_pop_def
        small_constants_sel Run_init_sel new_worker_sel restored_entry_sel Let_def)
  note th = min_priority_at_pop [where K = small_constants and now = 5 and st = ?st and tc = ?tc
      and e = "restored_entry [1] (- 2) 0" and st' = ?st' and tc' = ?tc
      and job = "FUZZ (restored_entry [1] (- 2) 0)"]
  show ?thesis
    using s th [THEN conjunct1, rule_format, OF s] th [THEN conjunct2, THEN conjunct1, rule_format, OF s]
    by blast
qed

subsection \<open>SaveState and RestoreState\<close>

lemma foldl_restore_sample:
  "foldl restore_sample st [0..<n] =
     st\<lparr>all_samples := all_samples st @
            map (\<lambda>i. Load (files st) (DirJoin (sample_dir st) (''sample_'' @ fileindex (word_of_nat i))))
              [0..<n],
        sample_queue := sample_queue st @
            map (\<lambda>i. restored_entry
                        (Load (files st) (DirJoin (sample_dir st) (''sample_'' @ fileindex (word_of_nat i))))
                        (min_priority st) (word_of_nat i))
              [0..<n]\<rparr>"
proof (induction n)
  case 0
  then show ?case by simp
next
  case (Suc n)
  show ?case
    unfolding upt_Suc_append [OF le0] foldl_append Suc.IH
    by (simp add: restore_sample_def restored_entry_def queue_push_def Let_def)
qed

lemma RestoreState_snapshot:
  assumes "state_files st0 (DirJoin (out_dir st0) ''state.dat'') =
             Some [U64 n, U64 t, Priority m, CoverageBinary c]"
  shows "RestoreState st0 =
     Inr (st0\<lparr>num_samples := n, total_execs := t, min_priority := m, fuzzer_coverage := c,
             all_samples := all_samples st0 @
               map (\<lambda>i. Load (files st0) (DirJoin (sample_dir st0) (''sample_'' @ fileindex (word_of_nat i))))
                 [0..<unat n],
             sample_queue := sample_queue st0 @
               map (\<lambda>i. restored_entry
                          (Load (files st0) (DirJoin (sample_dir st0) (''sample_'' @ fileindex (word_of_nat i))))
                          m (word_of_nat i))
                 [0..<unat n]\<rparr>)"
  using assms
  by (simp add: RestoreState_def fread_u64_def fread_priority_def ReadCoverageBinary_def
        foldl_restore_sample Let_def)

lemma SaveState_written:
  assumes "state st \<noteq> INPUT_SAMPLE_PROCESSING" "fopen_wb st (DirJoin (out_dir st) ''state.dat'')"
  shows "SaveState st =
     Inr (st\<lparr>state_files := (state_files st)(DirJoin (out_dir st) ''state.dat'' \<mapsto>
                [U64 (num_samples st), U64 (total_execs st), Priority (min_priority st),
                 CoverageBinary (fuzzer_coverage st)])\<rparr>)"
  using assms
  by (simp add: SaveState_def fwrite_u64_def fwrite_priority_def WriteCoverageBinary_def Let_def)

text \<open>
  C7. \<^verbatim>\<open>SaveState\<close> writes nothing while the input samples are processed; otherwise
  it writes \<^verbatim>\<open>num_samples\<close>, \<^verbatim>\<open>total_execs\<close>, \<^verbatim>\<open>min_priority\<close> and the coverage,
  in this order. \<^verbatim>\<open>RestoreState\<close>, in a fuzzer that has just started (its queue and
  \<^verbatim>\<open>all_samples\<close> empty) and finds the file, reads the four back as they were saved,
  and queues one entry for each index below \<^verbatim>\<open>num_samples\<close>, in order: the sample
  loaded from \<^verbatim>\<open>sample_<index>\<close> in the sample directory, the priority
  \<^verbatim>\<open>min_priority\<close>, no mutator context.
\<close>

theorem snapshot_restore:
  "(state st = INPUT_SAMPLE_PROCESSING \<longrightarrow> SaveState st = Inr st)
   \<and> (state st \<noteq> INPUT_SAMPLE_PROCESSING \<and> fopen_wb st (DirJoin (out_dir st) ''state.dat'') \<longrightarrow>
        SaveState st =
          Inr (st\<lparr>state_files := (state_files st)(DirJoin (out_dir st) ''state.dat'' \<mapsto>
                     [U64 (num_samples st), U64 (total_execs st), Priority (min_priority st),
                      CoverageBinary (fuzzer_coverage st)])\<rparr>))
   \<and> (state st \<noteq> INPUT_SAMPLE_PROCESSING \<and> SaveState st = Inr st' \<and>
       out_dir st0 = out_dir st \<and> state_files st0 = state_files st' \<and>
       sample_queue st0 = [] \<and> all_samples st0 = [] \<longrightarrow>
        (\<exists>r. RestoreState st0 = Inr r
           \<and> num_samples r = num_samples st \<and> total_execs r = total_execs st
           \<and> min_priority r = min_priority st \<and> fuzzer_coverage r = fuzzer_coverage st
           \<and> sample_queue r =
               map (\<lambda>i. \<lparr>sample = Load (files st0)
                                     (DirJoin (sample_dir st0) (''sample_'' @ fileindex (word_of_nat i))),
                         sample_context = None, context_initialized = False,
                         priority = min_priority st, sample_index = word_of_nat i,
                         num_runs = 0, num_newcoverage = 0,
                         entry_num_hangs = 0, entry_num_crashes = 0\<rparr>)
                 [0..<unat (num_samples st)]
           \<and> all_samples r =
               map (\<lambda>i. Load (files st0) (DirJoin (sample_dir st0) (''sample_'' @ fileindex (word_of_nat i))))
                 [0..<unat (num_samples st)]))"
proof (intro conjI impI)
  assume "state st = INPUT_SAMPLE_PROCESSING"
  then show "SaveState st = Inr st" by (simp add: SaveState_def)
next
  assume "state st \<noteq> INPUT_SAMPLE_PROCESSING \<and> fopen_wb st (DirJoin (out_dir st) ''state.dat'')"
  then show "SaveState st =
          Inr (st\<lparr>state_files := (state_files st)(DirJoin (out_dir st) ''state.dat'' \<mapsto>
                     [U64 (num_samples st), U64 (total_execs st), Priority (min_priority st),
                      CoverageBinary (fuzzer_coverage st)])\<rparr>)"
    by (simp add: SaveState_written)
next
  assume a: "state st \<noteq> INPUT_SAMPLE_PROCESSING \<and> SaveState st = Inr st' \<and>
       out_dir st0 = out_dir st \<and> state_files st0 = state_files st' \<and>
       sample_queue st0 = [] \<and> all_samples st0 = []"
  then have o: "fopen_wb st (DirJoin (out_dir st) ''state.dat'')"
    by (auto simp: SaveState_def Let_def split: if_splits)
  have "st' = st\<lparr>state_files := (state_files st)(DirJoin (out_dir st) ''state.dat'' \<mapsto>
                     [U64 (num_samples st), U64 (total_execs st), Priority (min_priority st),
                      CoverageBinary (fuzzer_coverage st)])\<rparr>"
    using a o SaveState_written [of st] by simp
  then have f: "state_files st0 (DirJoin (out_dir st0) ''state.dat'') =
      Some [U64 (num_samples st), U64 (total_execs st), Priority (min_priority st),
            CoverageBinary (fuzzer_coverage st)]"
    using a by simp
  show "\<exists>r. RestoreState st0 = Inr r
           \<and> num_samples r = num_samples st \<and> total_execs r = total_execs st
           \<and> min_priority r = min_priority st \<and> fuzzer_coverage r = fuzzer_coverage st
           \<and> sample_queue r =
               map (\<lambda>i. \<lparr>sample = Load (files st0)
                                     (DirJoin (sample_dir st0) (''sample_'' @ fileindex (word_of_nat i))),
                         sample_context = None, context_initialized = False,
                         priority = min_priority st, sample_index = word_of_nat i,
                         num_runs = 0, num_newcoverage = 0,
                         entry_num_hangs = 0, entry_num_crashes = 0\<rparr>)
                 [0..<unat (num_samples st)]
           \<and> all_samples r =
               map (\<lambda>i. Load (files st0) (DirJoin (sample_dir st0) (''sample_'' @ fileindex (word_of_nat i))))
                 [0..<unat (num_samples st)]"
    unfolding RestoreState_snapshot [OF f] using a by (simp add: restored_entry_def)
qed

lemma fileindex_small:
  "fileindex 0 = ''00000''" "fileindex 1 = ''00001''"
  by (simp_all add: fileindex_def zero_pad_def to_string_nat.simps digit_def Let_def eval_nat_numeral)

theorem snapshot_restore_witness:
  "state (Run_init [''out''] [] None) = INPUT_SAMPLE_PROCESSING
   \<and> SaveState (Run_init [''out''] [] None) = Inr (Run_init [''out''] [] None)
   \<and> state ((Run_init [''out''] [] None)
        \<lparr>state := FUZZING, fuzzer_coverage := {(''m'', 1)}, num_samples := 2,
         total_execs := 7, min_priority := - 3,
         files := [[''out'', ''samples'', ''sample_00000''] \<mapsto> [1],
                   [''out'', ''samples'', ''sample_00001''] \<mapsto> [2]]\<rparr>) \<noteq> INPUT_SAMPLE_PROCESSING
   \<and> SaveState ((Run_init [''out''] [] None)
        \<lparr>state := FUZZING, fuzzer_coverage := {(''m'', 1)}, num_samples := 2,
         total_execs := 7, min_priority := - 3,
         files := [[''out'', ''samples'', ''sample_00000''] \<mapsto> [1],
                   [''out'', ''samples'', ''sample_00001''] \<mapsto> [2]]\<rparr>) =
       Inr ((Run_init [''out''] [] None)
        \<lparr>state := FUZZING, fuzzer_coverage := {(''m'', 1)}, num_samples := 2,
         total_execs := 7, min_priority := - 3,
         files := [[''out'', ''samples'', ''sample_00000''] \<mapsto> [1],
                   [''out'', ''samples'', ''sample_00001''] \<mapsto> [2]],
         state_files := [[''out'', ''state.dat''] \<mapsto>
                          [U64 2, U64 7, Priority (- 3), CoverageBinary {(''m'', 1)}]]\<rparr>)
   \<and> (\<exists>r. RestoreState ((Run_init [''out''] [] None)
             \<lparr>files := [[''out'', ''samples'', ''sample_00000''] \<mapsto> [1],
                        [''out'', ''samples'', ''sample_00001''] \<mapsto> [2]],
              state_files := [[''out'', ''state.dat''] \<mapsto>
                          [U64 2, U64 7, Priority (- 3), CoverageBinary {(''m'', 1)}]]\<rparr>) = Inr r
         \<and> num_samples r = 2 \<and> total_execs r = 7 \<and> min_priority r = - 3
         \<and> fuzzer_coverage r = {(''m'', 1)}
         \<and> sample_queue r = [restored_entry [1] (- 3) 0, restored_entry [2] (- 3) 1]
         \<and> all_samples r = [[1], [2]])"
proof -
  let ?A = "Run_init [''out''] [] None"
  let ?fs = "[[''out'', ''samples'', ''sample_00000''] \<mapsto> [1::byte],
              [''out'', ''samples'', ''sample_00001''] \<mapsto> [2]]"
  let ?sf = "[[''out'', ''state.dat''] \<mapsto> [U64 2, U64 7, Priority (- 3), CoverageBinary {(''m'', 1)}]]"
  let ?st = "?A\<lparr>state := FUZZING, fuzzer_coverage := {(''m'', 1)}, num_samples := 2,
         total_execs := 7, min_priority := - 3, files := ?fs\<rparr>"
  let ?st' = "?A\<lparr>state := FUZZING, fuzzer_coverage := {(''m'', 1)}, num_samples := 2,
         total_execs := 7, min_priority := - 3, files := ?fs, state_files := ?sf\<rparr>"
  let ?fresh = "?A\<lparr>files := ?fs, state_files := ?sf\<rparr>"
  have 1: "state ?A = INPUT_SAMPLE_PROCESSING" by (simp add: Run_init_sel)
  note th1 = snapshot_restore [where st = ?A, THEN conjunct1, rule_format, OF 1]
  have 2: "state ?st \<noteq> INPUT_SAMPLE_PROCESSING \<and> fopen_wb ?st (DirJoin (out_dir ?st) ''state.dat'')"
    by (simp add: Run_init_sel)
  have 3: "SaveState ?st = Inr ?st'"
    using snapshot_restore [where st = ?st, THEN conjunct2, THEN conjunct1, rule_format, OF 2]
    by (simp add: Run_init_sel DirJoin_def)
  have 4: "state ?st \<noteq> INPUT_SAMPLE_PROCESSING \<and> SaveState ?st = Inr ?st' \<and>
       out_dir ?fresh = out_dir ?st \<and> state_files ?fresh = state_files ?st' \<and>
       sample_queue ?fresh = [] \<and> all_samples ?fresh = []"
    using 2 3 by (simp add: Run_init_sel)
  have u: "[0..<2] = [0, Suc 0]"
    by (simp add: upt_rec)
  have l: "Load ?fs [''out'', ''samples'', ''sample_00000''] = [1]"
          "Load ?fs [''out'', ''samples'', ''sample_00001''] = [2]"
    by (simp_all add: Load_def)
  have 5: "\<exists>r. RestoreState ?fresh = Inr r
         \<and> num_samples r = 2 \<and> total_execs r = 7 \<and> min_priority r = - 3
         \<and> fuzzer_coverage r = {(''m'', 1)}
         \<and> sample_queue r = [restored_entry [1] (- 3) 0, restored_entry [2] (- 3) 1]
         \<and> all_samples r = [[1], [2]]"
    using snapshot_restore [where st = ?st and st' = ?st' and ?st0.0 = ?fresh,
        THEN conjunct2, THEN conjunct2, rule_format, OF 4]
    by (simp add: Run_init_sel u l DirJoin_def fileindex_small restored_entry_def)
  show ?thesis using 1 th1 2 3 5 by blast
qed

subsection \<open>RunSample\<close>

lemma retry_loop_all_OK:
  assumes "\<forall>k<n. result (target tc (executions tc + k) s) = OK \<and>
             (delivered (target tc (executions tc + k) s) \<or>
              redelivered (target tc (executions tc + k) s))"
  shows "retry_loop K n st tc s OK S T =
     Inr (Inr (OK,
               S \<inter> (\<Inter>k<n. coverage (target tc (executions tc + k) s)),
               T \<union> (\<Union>k<n. coverage (target tc (executions tc + k) s)),
               st\<lparr>total_execs := total_execs st + of_nat n\<rparr>,
               tc\<lparr>executions := executions tc + n,
                  trace := trace tc @
                    map (\<lambda>k. (s, OK, coverage (target tc (executions tc + k) s))) [0..<n]\<rparr>))"
  using assms
proof (induction n arbitrary: st tc S T)
  case 0
  then show ?case by simp
next
  case (Suc n)
  let ?e = "target tc (executions tc) s"
  let ?st1 = "st\<lparr>total_execs := total_execs st + 1\<rparr>"
  let ?tc1 = "tc\<lparr>executions := executions tc + 1, trace := trace tc @ [(s, OK, coverage ?e)]\<rparr>"
  have e0: "result ?e = OK" "delivered ?e \<or> redelivered ?e"
    using Suc.prems by force+
  have run: "RunSampleAndGetCoverage K st tc s = Inr (OK, coverage ?e, ?st1, ?tc1)"
    using RunSampleAndGetCoverage_OK [OF e0] .
  have pre: "\<forall>k<n. result (target ?tc1 (executions ?tc1 + k) s) = OK \<and>
             (delivered (target ?tc1 (executions ?tc1 + k) s) \<or>
              redelivered (target ?tc1 (executions ?tc1 + k) s))"
    using Suc.prems by auto
  have step: "retry_loop K (Suc n) st tc s OK S T =
              retry_loop K n ?st1 ?tc1 s OK (S \<inter> coverage ?e) (T \<union> coverage ?e)"
    by (simp add: run MergeCoverage_def CoverageIntersection_def)
  have i: "(\<Inter>k<Suc n. coverage (target tc (executions tc + k) s)) =
           coverage ?e \<inter> (\<Inter>k<n. coverage (target tc (executions tc + Suc k) s))"
    unfolding lessThan_Suc_eq_insert_0 by (simp add: image_image)
  have u: "(\<Union>k<Suc n. coverage (target tc (executions tc + k) s)) =
           coverage ?e \<union> (\<Union>k<n. coverage (target tc (executions tc + Suc k) s))"
    unfolding lessThan_Suc_eq_insert_0 by (simp add: image_image)
  have m: "map (\<lambda>k. (s, OK, coverage (target tc (executions tc + k) s))) [0..<Suc n] =
           (s, OK, coverage ?e) #
           map (\<lambda>k. (s, OK, coverage (target tc (executions tc + Suc k) s))) [0..<n]"
    by (simp only: map_upt_Suc add_0_right)
  show ?case
    unfolding step Suc.IH [OF pre] i u m
    by (simp add: Int_assoc Un_assoc add.assoc)
qed

lemma retry_loop_first_bad:
  assumes "\<forall>k<j. result (target tc (executions tc + k) s) = OK \<and>
             (delivered (target tc (executions tc + k) s) \<or>
              redelivered (target tc (executions tc + k) s))"
    and "result (target tc (executions tc + j) s) \<noteq> OK"
    and "j < n"
    and "retry_loop K n st tc s r S T = Inr x"
  shows "\<exists>st' tc'. x = Inl (result (target tc (executions tc + j) s), st', tc')
           \<and> run_frame st' = run_frame st
           \<and> length (trace tc') = length (trace tc) + j + 1"
  using assms
proof (induction n arbitrary: j st tc r S T)
  case 0
  then show ?case by simp
next
  case (Suc n)
  let ?e = "target tc (executions tc) s"
  show ?case
  proof (cases j)
    case 0
    obtain r1 c1 st1 tc1 where run: "RunSampleAndGetCoverage K st tc s = Inr (r1, c1, st1, tc1)"
      using Suc.prems(4) by (auto split: sum.splits)
    note f = RunSampleAndGetCoverage_frame [OF run]
    have "r1 \<noteq> OK" using f Suc.prems(2) 0 by simp
    then have "x = Inl (r1, st1, tc1)"
      using Suc.prems(4) run by simp
    then show ?thesis using f 0 by simp
  next
    case (Suc j')
    let ?st1 = "st\<lparr>total_execs := total_execs st + 1\<rparr>"
    let ?tc1 = "tc\<lparr>executions := executions tc + 1, trace := trace tc @ [(s, OK, coverage ?e)]\<rparr>"
    have e0: "result ?e = OK" "delivered ?e \<or> redelivered ?e"
      using Suc.prems(1) Suc by force+
    have run: "RunSampleAndGetCoverage K st tc s = Inr (OK, coverage ?e, ?st1, ?tc1)"
      using RunSampleAndGetCoverage_OK [OF e0] .
    have step: "retry_loop K n ?st1 ?tc1 s OK (CoverageIntersection S (coverage ?e))
                  (MergeCoverage T (coverage ?e)) = Inr x"
      using Suc.prems(4) by (simp add: run)
    have p1: "\<forall>k<j'. result (target ?tc1 (executions ?tc1 + k) s) = OK \<and>
             (delivered (target ?tc1 (executions ?tc1 + k) s) \<or>
              redelivered (target ?tc1 (executions ?tc1 + k) s))"
      using Suc.prems(1) Suc by auto
    have p2: "result (target ?tc1 (executions ?tc1 + j') s) \<noteq> OK"
      using Suc.prems(2) Suc by simp
    have p3: "j' < n" using Suc.prems(3) Suc by simp
    from Suc.IH [OF p1 p2 p3 step] show ?thesis using Suc by auto
  qed
qed

lemma RunSample_unfold:
  "RunSample K st tc s trim report_to_server =
     (case RunSampleAndGetCoverage K st tc s of
        Inl f \<Rightarrow> Inl f
      | Inr (r, initialCoverage, st1, tc1) \<Rightarrow>
          if r \<noteq> OK then Inr (r, 0, st1, tc1)
          else if initialCoverage = {} then Inr (r, 0, st1, tc1)
          else
            case retry_loop K (SAMPLE_RETRY_TIMES K) st1 tc1 s r initialCoverage initialCoverage of
              Inl f \<Rightarrow> Inl f
            | Inr (Inl (r1, st2, tc2)) \<Rightarrow> Inr (r1, 0, st2, tc2)
            | Inr (Inr (r1, stableCoverage, totalCoverage, st2, tc2)) \<Rightarrow>
                offer_sample K st2 tc2 s r1 stableCoverage
                  (CoverageDifference stableCoverage totalCoverage) totalCoverage
                  trim report_to_server)"
  unfolding RunSample_def OutputFilter_def Let_def prod.case if_False by (rule refl)

lemma run_frame_fields:
  assumes "run_frame st' = run_frame st"
  shows "fuzzer_coverage st' = fuzzer_coverage st" "sample_queue st' = sample_queue st"
    "all_samples st' = all_samples st" "num_samples st' = num_samples st"
  using arg_cong [OF assms, of fuzzer_coverage] arg_cong [OF assms, of sample_queue]
    arg_cong [OF assms, of all_samples] arg_cong [OF assms, of num_samples]
  by simp_all

lemma RunSample_all_OK:
  assumes ok: "\<forall>k\<le>SAMPLE_RETRY_TIMES K.
             result (target tc (executions tc + k) s) = OK \<and>
             (delivered (target tc (executions tc + k) s) \<or>
              redelivered (target tc (executions tc + k) s))"
    and ne: "coverage (target tc (executions tc + 0) s) \<noteq> {}"
  shows "RunSample K st tc s trim report_to_server =
     offer_sample K
       (st\<lparr>total_execs := total_execs st + of_nat (Suc (SAMPLE_RETRY_TIMES K))\<rparr>)
       (tc\<lparr>executions := executions tc + Suc (SAMPLE_RETRY_TIMES K),
           trace := trace tc @
             map (\<lambda>k. (s, OK, coverage (target tc (executions tc + k) s)))
               [0..<Suc (SAMPLE_RETRY_TIMES K)]\<rparr>)
       s OK
       (\<Inter>k\<le>SAMPLE_RETRY_TIMES K. coverage (target tc (executions tc + k) s))
       ((\<Union>k\<le>SAMPLE_RETRY_TIMES K. coverage (target tc (executions tc + k) s)) -
        (\<Inter>k\<le>SAMPLE_RETRY_TIMES K. coverage (target tc (executions tc + k) s)))
       (\<Union>k\<le>SAMPLE_RETRY_TIMES K. coverage (target tc (executions tc + k) s))
       trim report_to_server"
proof -
  let ?N = "SAMPLE_RETRY_TIMES K"
  let ?e = "target tc (executions tc) s"
  let ?c = "\<lambda>k. coverage (target tc (executions tc + k) s)"
  let ?st1 = "st\<lparr>total_execs := total_execs st + 1\<rparr>"
  let ?tc1 = "tc\<lparr>executions := executions tc + 1, trace := trace tc @ [(s, OK, coverage ?e)]\<rparr>"
  have e0: "result ?e = OK" "delivered ?e \<or> redelivered ?e"
    using ok [rule_format, of 0] by simp_all
  have run: "RunSampleAndGetCoverage K st tc s = Inr (OK, coverage ?e, ?st1, ?tc1)"
    using RunSampleAndGetCoverage_OK [OF e0] .
  have pre: "\<forall>k<?N. result (target ?tc1 (executions ?tc1 + k) s) = OK \<and>
             (delivered (target ?tc1 (executions ?tc1 + k) s) \<or>
              redelivered (target ?tc1 (executions ?tc1 + k) s))"
  proof (intro allI impI)
    fix k assume "k < ?N"
    then have "Suc k \<le> ?N" by simp
    from ok [rule_format, OF this]
    show "result (target ?tc1 (executions ?tc1 + k) s) = OK \<and>
             (delivered (target ?tc1 (executions ?tc1 + k) s) \<or>
              redelivered (target ?tc1 (executions ?tc1 + k) s))"
      by simp
  qed
  note loop = retry_loop_all_OK [OF pre, of K ?st1 "coverage ?e" "coverage ?e"]
  have i: "(\<Inter>k\<le>?N. ?c k) = coverage ?e \<inter> (\<Inter>k<?N. ?c (Suc k))"
    unfolding lessThan_Suc_atMost [symmetric] lessThan_Suc_eq_insert_0
    by (simp add: image_image)
  have u: "(\<Union>k\<le>?N. ?c k) = coverage ?e \<union> (\<Union>k<?N. ?c (Suc k))"
    unfolding lessThan_Suc_atMost [symmetric] lessThan_Suc_eq_insert_0
    by (simp add: image_image)
  have m: "map (\<lambda>k. (s, OK, ?c k)) [0..<Suc ?N] =
           (s, OK, coverage ?e) # map (\<lambda>k. (s, OK, ?c (Suc k))) [0..<?N]"
    by (simp only: map_upt_Suc add_0_right)
  have ne': "coverage ?e \<noteq> {}" using ne by simp
  show ?thesis
    unfolding i u m
    using ne' loop
    by (simp add: RunSample_unfold run CoverageDifference_def add.assoc)
qed

lemma RunSample_early:
  assumes "result (target tc (executions tc + 0) s) \<noteq> OK \<or>
           coverage (target tc (executions tc + 0) s) = {}"
    and "RunSample K st tc s trim report_to_server = Inr (r, h, st', tc')"
  shows "r = result (target tc (executions tc + 0) s) \<and> h = 0
         \<and> run_frame st' = run_frame st
         \<and> length (trace tc') = length (trace tc) + 1"
proof -
  obtain r1 c1 st1 tc1 where run: "RunSampleAndGetCoverage K st tc s = Inr (r1, c1, st1, tc1)"
    using assms(2) unfolding RunSample_unfold by (auto split: sum.splits)
  note f = RunSampleAndGetCoverage_frame [OF run]
  have "r1 \<noteq> OK \<or> c1 = {}" using f assms(1) by simp
  then have "r = r1 \<and> h = 0 \<and> st' = st1 \<and> tc' = tc1"
    using assms(2) by (auto simp: RunSample_unfold run split: if_splits)
  then show ?thesis using f by simp
qed

lemma RunSample_retry_fails:
  assumes ok: "\<forall>k<j. result (target tc (executions tc + k) s) = OK \<and>
             (delivered (target tc (executions tc + k) s) \<or>
              redelivered (target tc (executions tc + k) s))"
    and ne: "coverage (target tc (executions tc + 0) s) \<noteq> {}"
    and j: "0 < j" "j \<le> SAMPLE_RETRY_TIMES K"
    and bad: "result (target tc (executions tc + j) s) \<noteq> OK"
    and res: "RunSample K st tc s trim report_to_server = Inr (r, h, st', tc')"
  shows "r = result (target tc (executions tc + j) s) \<and> h = 0
         \<and> run_frame st' = run_frame st
         \<and> length (trace tc') = length (trace tc) + j + 1"
proof -
  let ?e = "target tc (executions tc) s"
  let ?st1 = "st\<lparr>total_execs := total_execs st + 1\<rparr>"
  let ?tc1 = "tc\<lparr>executions := executions tc + 1, trace := trace tc @ [(s, OK, coverage ?e)]\<rparr>"
  obtain j' where jj: "j = Suc j'" using j(1) by (cases j) auto
  have e0: "result ?e = OK" "delivered ?e \<or> redelivered ?e"
    using ok [rule_format, of 0] j(1) by simp_all
  have run: "RunSampleAndGetCoverage K st tc s = Inr (OK, coverage ?e, ?st1, ?tc1)"
    using RunSampleAndGetCoverage_OK [OF e0] .
  have ne': "coverage ?e \<noteq> {}" using ne by simp
  obtain x where loop: "retry_loop K (SAMPLE_RETRY_TIMES K) ?st1 ?tc1 s OK (coverage ?e) (coverage ?e) = Inr x"
    using res ne' by (auto simp: RunSample_unfold run split: sum.splits)
  have p1: "\<forall>k<j'. result (target ?tc1 (executions ?tc1 + k) s) = OK \<and>
             (delivered (target ?tc1 (executions ?tc1 + k) s) \<or>
              redelivered (target ?tc1 (executions ?tc1 + k) s))"
    using ok jj by auto
  have p2: "result (target ?tc1 (executions ?tc1 + j') s) \<noteq> OK"
    using bad jj by simp
  have p3: "j' < SAMPLE_RETRY_TIMES K" using j(2) jj by simp
  from retry_loop_first_bad [OF p1 p2 p3 loop] obtain st2 tc2 where
    x: "x = Inl (result (target ?tc1 (executions ?tc1 + j') s), st2, tc2)"
    and fr: "run_frame st2 = run_frame ?st1"
    and len: "length (trace tc2) = length (trace ?tc1) + j' + 1"
    by blast
  have "r = result (target ?tc1 (executions ?tc1 + j') s) \<and> h = 0 \<and> st' = st2 \<and> tc' = tc2"
    using res ne' loop x by (simp add: RunSample_unfold run)
  then show ?thesis using fr len jj by simp
qed

subsection \<open>TrimSample\<close>

lemma trim_loop_inv:
  "trim_loop K st tc s sc step trimmed test = Inr (n, st', tc') \<Longrightarrow>
   test = take trimmed s \<Longrightarrow> trimmed \<le> length s \<Longrightarrow>
   n \<le> trimmed \<and> run_frame st' = run_frame st \<and>
   tc'\<lparr>executions := 0, trace := []\<rparr> = tc\<lparr>executions := 0, trace := []\<rparr> \<and>
   (\<exists>new. trace tc' = trace tc @ new \<and>
      (n = trimmed \<or> (\<exists>cov. (take n s, OK, cov) \<in> set new \<and> sc \<subseteq> cov)) \<and>
      (\<forall>x\<in>set (butlast new). fst (snd x) = OK) \<and>
      (\<forall>x\<in>set new. fst x = take (length (fst x)) s \<and> length (fst x) < length s))"
proof (induction K st tc s sc step trimmed test arbitrary: n st' tc' rule: trim_loop.induct)
  case (1 K st tc s sc step trimmed test)
  note res = "1.prems"(1) and tst = "1.prems"(2) and le = "1.prems"(3)
  have len: "length test = trimmed" using tst le by simp
  show ?case
  proof (cases "length test \<le> 1")
    case True
    then have "n = trimmed" "st' = st" "tc' = tc"
      using res by (simp_all add: trim_loop.simps)
    then show ?thesis by simp
  next
    case big: False
    show ?thesis
    proof (cases "length test \<le> step")
      case True
      have "trim_loop K st tc s sc (step div 2) trimmed test = Inr (n, st', tc')"
        using res big True by (subst (asm) trim_loop.simps) simp
      from "1.IH"(1) [OF big True this tst le] show ?thesis .
    next
      case small: False
      show ?thesis
      proof (cases "step = 0")
        case True
        then have "n = trimmed" "st' = st" "tc' = tc"
          using res big small by (simp_all add: trim_loop.simps)
        then show ?thesis by simp
      next
        case pos: False
        let ?t1 = "Trim test (length test - step)"
        have t1: "?t1 = take (trimmed - step) s"
          using len tst le by (simp add: Trim_def min_def)
        have l1: "length ?t1 = trimmed - step" "trimmed - step \<le> length s"
          "trimmed - step < length s"
          using t1 le pos small len by auto
        obtain r cov st1 tc1 where
          run: "RunSampleAndGetCoverage K st tc ?t1 = Inr (r, cov, st1, tc1)"
          using res big small pos
          by (subst (asm) trim_loop.simps) (auto simp: Let_def split: sum.splits)
        note f = RunSampleAndGetCoverage_frame [OF run]
        have f1: "run_frame st1 = run_frame st"
          and f2: "tc1\<lparr>executions := 0, trace := []\<rparr> = tc\<lparr>executions := 0, trace := []\<rparr>"
          and f3: "trace tc1 = trace tc @ [(?t1, r, cov)]"
          using f by blast+
        have body: "trim_loop K st tc s sc step trimmed test =
            (if r \<noteq> OK then Inr (trimmed, st1, tc1)
             else if \<not> CoverageContains cov sc then
               (if step div 2 = 0 then Inr (trimmed, st1, tc1)
                else trim_loop K st1 tc1 s sc (step div 2) trimmed (Trim s trimmed))
             else trim_loop K st1 tc1 s sc step (length ?t1) ?t1)"
          using big small pos run by (subst trim_loop.simps) (simp add: Let_def)
        have x1: "fst (?t1, r, cov) = take (length (fst (?t1, r, cov))) s \<and>
                  length (fst (?t1, r, cov)) < length s"
          using t1 l1 by simp
        show ?thesis
        proof (cases "r = OK")
          case False
          then have "n = trimmed" "st' = st1" "tc' = tc1"
            using res body by simp_all
          then show ?thesis using f1 f2 f3 x1 by simp
        next
          case ok: True
          show ?thesis
          proof (cases "CoverageContains cov sc")
            case no: False
            show ?thesis
            proof (cases "step div 2 = 0")
              case True
              then have "n = trimmed" "st' = st1" "tc' = tc1"
                using res body ok no by simp_all
              then show ?thesis using f1 f2 f3 x1 ok by simp
            next
              case False
              have rec: "trim_loop K st1 tc1 s sc (step div 2) trimmed (Trim s trimmed) =
                         Inr (n, st', tc')"
                using res body ok no False by simp
              have a: "\<not> r \<noteq> OK" using ok by simp
              have ih: "n \<le> trimmed \<and> run_frame st' = run_frame st1 \<and>
                 tc'\<lparr>executions := 0, trace := []\<rparr> = tc1\<lparr>executions := 0, trace := []\<rparr> \<and>
                 (\<exists>new. trace tc' = trace tc1 @ new \<and>
                    (n = trimmed \<or> (\<exists>cov. (take n s, OK, cov) \<in> set new \<and> sc \<subseteq> cov)) \<and>
                    (\<forall>x\<in>set (butlast new). fst (snd x) = OK) \<and>
                    (\<forall>x\<in>set new. fst x = take (length (fst x)) s \<and> length (fst x) < length s))"
                using "1.IH"(2) [OF big small pos refl run refl refl refl a no False rec _ le]
                by (simp add: Trim_def)
              then obtain new where
                n1: "n \<le> trimmed" and n2: "run_frame st' = run_frame st1"
                and n3: "tc'\<lparr>executions := 0, trace := []\<rparr> = tc1\<lparr>executions := 0, trace := []\<rparr>"
                and n4: "trace tc' = trace tc1 @ new"
                and n5: "n = trimmed \<or> (\<exists>cov. (take n s, OK, cov) \<in> set new \<and> sc \<subseteq> cov)"
                and n6: "\<forall>x\<in>set (butlast new). fst (snd x) = OK"
                and n7: "\<forall>x\<in>set new. fst x = take (length (fst x)) s \<and> length (fst x) < length s"
                by blast
              let ?new = "(?t1, r, cov) # new"
              have "trace tc' = trace tc @ ?new" using n4 f3 by simp
              moreover have "n = trimmed \<or> (\<exists>cov. (take n s, OK, cov) \<in> set ?new \<and> sc \<subseteq> cov)"
                using n5 by auto
              moreover have "\<forall>x\<in>set (butlast ?new). fst (snd x) = OK"
                using n6 ok by auto
              moreover have "\<forall>x\<in>set ?new. fst x = take (length (fst x)) s \<and> length (fst x) < length s"
                using n7 x1 by auto
              ultimately have "\<exists>new. trace tc' = trace tc @ new \<and>
                    (n = trimmed \<or> (\<exists>cov. (take n s, OK, cov) \<in> set new \<and> sc \<subseteq> cov)) \<and>
                    (\<forall>x\<in>set (butlast new). fst (snd x) = OK) \<and>
                    (\<forall>x\<in>set new. fst x = take (length (fst x)) s \<and> length (fst x) < length s)"
                by blast
              then show ?thesis
                using n1 trans [OF n2 f1] trans [OF n3 f2] by blast
            qed
          next
            case yes: True
            have rec: "trim_loop K st1 tc1 s sc step (length ?t1) ?t1 = Inr (n, st', tc')"
              using res body ok yes by simp
            have a: "\<not> r \<noteq> OK" using ok by simp
            have b: "\<not> \<not> CoverageContains cov sc" using yes by simp
            have t1': "?t1 = take (length ?t1) s" using t1 l1 by simp
            have le': "length ?t1 \<le> length s" using l1 by simp
            have ih: "n \<le> length ?t1 \<and> run_frame st' = run_frame st1 \<and>
                 tc'\<lparr>executions := 0, trace := []\<rparr> = tc1\<lparr>executions := 0, trace := []\<rparr> \<and>
                 (\<exists>new. trace tc' = trace tc1 @ new \<and>
                    (n = length ?t1 \<or> (\<exists>cov. (take n s, OK, cov) \<in> set new \<and> sc \<subseteq> cov)) \<and>
                    (\<forall>x\<in>set (butlast new). fst (snd x) = OK) \<and>
                    (\<forall>x\<in>set new. fst x = take (length (fst x)) s \<and> length (fst x) < length s))"
              using "1.IH"(3) [OF big small pos refl run refl refl refl a b rec t1' le'] .
            then obtain new where
              n1: "n \<le> length ?t1" and n2: "run_frame st' = run_frame st1"
              and n3: "tc'\<lparr>executions := 0, trace := []\<rparr> = tc1\<lparr>executions := 0, trace := []\<rparr>"
              and n4: "trace tc' = trace tc1 @ new"
              and n5: "n = length ?t1 \<or> (\<exists>cov. (take n s, OK, cov) \<in> set new \<and> sc \<subseteq> cov)"
              and n6: "\<forall>x\<in>set (butlast new). fst (snd x) = OK"
              and n7: "\<forall>x\<in>set new. fst x = take (length (fst x)) s \<and> length (fst x) < length s"
              by blast
            let ?new = "(?t1, r, cov) # new"
            have sub: "sc \<subseteq> cov" using yes by (simp add: CoverageContains_def)
            have "trace tc' = trace tc @ ?new" using n4 f3 by simp
            moreover have "n = trimmed \<or> (\<exists>cov. (take n s, OK, cov) \<in> set ?new \<and> sc \<subseteq> cov)"
            proof (cases "n = length ?t1")
              case True
              then have "(take n s, OK, cov) \<in> set ?new" using t1 l1 ok by simp
              then show ?thesis using sub by blast
            next
              case False
              then show ?thesis using n5 by auto
            qed
            moreover have "\<forall>x\<in>set (butlast ?new). fst (snd x) = OK"
              using n6 ok by auto
            moreover have "\<forall>x\<in>set ?new. fst x = take (length (fst x)) s \<and> length (fst x) < length s"
              using n7 x1 by auto
            ultimately have "\<exists>new. trace tc' = trace tc @ new \<and>
                    (n = trimmed \<or> (\<exists>cov. (take n s, OK, cov) \<in> set new \<and> sc \<subseteq> cov)) \<and>
                    (\<forall>x\<in>set (butlast new). fst (snd x) = OK) \<and>
                    (\<forall>x\<in>set new. fst x = take (length (fst x)) s \<and> length (fst x) < length s)"
              by blast
            moreover have "n \<le> trimmed" using n1 l1 by simp
            ultimately show ?thesis
              using trans [OF n2 f1] trans [OF n3 f2] by blast
          qed
        qed
      qed
    qed
  qed
qed


lemma TrimSample_inv:
  assumes a: "TrimSample K st tc s sc = Inr (s', st', tc')"
  shows "length s' \<le> length s \<and> s' = take (length s') s \<and>
      (\<exists>new. trace tc' = trace tc @ new \<and>
         (s' = s \<or> (\<exists>cov. (s', OK, cov) \<in> set new \<and> sc \<subseteq> cov)) \<and>
         (\<forall>x\<in>set (butlast new). fst (snd x) = OK) \<and>
         (\<forall>x\<in>set new. fst x = take (length (fst x)) s \<and> length (fst x) < length s))
      \<and> run_frame st' = run_frame st
      \<and> tc'\<lparr>executions := 0, trace := []\<rparr> = tc\<lparr>executions := 0, trace := []\<rparr>"
proof (cases "length s \<le> 1")
  case True
  then have "s' = s" "tc' = tc" "st' = st" using a by (simp_all add: TrimSample_def)
  then show ?thesis by simp
next
  case False
  obtain n where l: "trim_loop K st tc s sc (TRIM_STEP_INITIAL K) (length s) s = Inr (n, st', tc')"
    and s': "s' = (if n < length s then Trim s n else s)"
    using a False by (auto simp: TrimSample_def split: sum.splits)
  from trim_loop_inv [OF l] obtain new where
    n1: "n \<le> length s" and n2: "run_frame st' = run_frame st"
    and n3: "tc'\<lparr>executions := 0, trace := []\<rparr> = tc\<lparr>executions := 0, trace := []\<rparr>"
    and n4: "trace tc' = trace tc @ new"
    and n5: "n = length s \<or> (\<exists>cov. (take n s, OK, cov) \<in> set new \<and> sc \<subseteq> cov)"
    and n6: "\<forall>x\<in>set (butlast new). fst (snd x) = OK"
    and n7: "\<forall>x\<in>set new. fst x = take (length (fst x)) s \<and> length (fst x) < length s"
    by auto
  have e: "s' = take n s" using s' n1 by (simp add: Trim_def)
  have "s' = s \<or> (\<exists>cov. (s', OK, cov) \<in> set new \<and> sc \<subseteq> cov)"
    using n5 e by auto
  moreover have "length s' \<le> length s" "s' = take (length s') s"
    using e n1 by simp_all
  ultimately show ?thesis using n2 n3 n4 n6 n7 by blast
qed



lemma offer_sample_result:
  assumes a: "offer_sample K st tc s r S V T trim report_to_server = Inr (r', h, st', tc')"
  shows "r' = r \<and> (h \<noteq> 0) = (S - fuzzer_coverage st \<noteq> {}) \<and>
         fuzzer_coverage st' = fuzzer_coverage st \<union> (S - fuzzer_coverage st) \<union> (V - fuzzer_coverage st) \<and>
         (if h = 0
          then sample_queue st' = sample_queue st \<and> all_samples st' = all_samples st \<and>
               num_samples st' = num_samples st
          else length (sample_queue st') = length (sample_queue st) + 1 \<and>
               length (all_samples st') = length (all_samples st) + 1 \<and>
               num_samples st' = num_samples st + 1)"
proof -
  obtain i S1 V1 st1 where I: "InterestingSample st S V = (i, S1, V1, st1)"
    by (cases "InterestingSample st S V") auto
  have i: "(i \<noteq> 0) = (S - fuzzer_coverage st \<noteq> {})"
    and c1: "fuzzer_coverage st1 = fuzzer_coverage st \<union> (S - fuzzer_coverage st) \<union> (V - fuzzer_coverage st)"
    and q1: "sample_queue st1 = sample_queue st" "all_samples st1 = all_samples st"
            "num_samples st1 = num_samples st"
    using I by (auto simp: InterestingSample_def CoverageDifference_def MergeCoverage_def Let_def
                   split: if_splits)
  show ?thesis
  proof (cases "i = 0")
    case True
    then have "r' = r" "h = 0" "fuzzer_coverage st' = fuzzer_coverage st1"
      "sample_queue st' = sample_queue st1" "all_samples st' = all_samples st1"
      "num_samples st' = num_samples st1"
      using a I by (auto simp: offer_sample_def Let_def split: option.splits if_splits)
    then show ?thesis using i c1 q1 True by simp
  next
    case False
    obtain s1 st2 tc1 where
      t: "(if trim then TrimSample K st1 tc s S1 else Inr (s, st1, tc)) = Inr (s1, st2, tc1)"
      using a I False by (auto simp: offer_sample_def Let_def split: sum.splits if_splits)
    have fr: "run_frame st2 = run_frame st1"
    proof (cases trim)
      case True
      then show ?thesis using t TrimSample_inv [of K st1 tc s S1 s1 st2 tc1] by simp
    next
      case False
      then show ?thesis using t by simp
    qed
    note f = run_frame_fields [OF fr]
    have "r' = r" "h = 1" "fuzzer_coverage st' = fuzzer_coverage st2"
      "sample_queue st' = sample_queue st2 @
         [\<lparr>sample = s1, sample_context = Some (CreateSampleContext tc1 s1),
           context_initialized = True, priority = 0, sample_index = num_samples st2 + 1 - 1,
           num_runs = 0, num_newcoverage = 0, entry_num_hangs = 0, entry_num_crashes = 0\<rparr>]"
      "all_samples st' = all_samples st2 @ [s1]"
      "num_samples st' = num_samples st2 + 1"
      using a I False t
      by (auto simp: offer_sample_def queue_push_def Let_def split: option.splits if_splits)
    then show ?thesis using i c1 q1 f False by simp
  qed
qed

text \<open>
  C2. When the first execution of the sample returns \<^verbatim>\<open>OK\<close> with coverage, and the
  \<^verbatim>\<open>SAMPLE_RETRY_TIMES\<close> further executions return \<^verbatim>\<open>OK\<close>, \<^verbatim>\<open>RunSample\<close> has run
  the sample \<^verbatim>\<open>SAMPLE_RETRY_TIMES\<close> + 1 times and offers it with the stable coverage
  the intersection of the coverage of all runs, the total coverage their union and the
  variable coverage the total without the stable: the sample is new coverage exactly
  when the intersection has an edge that \<^verbatim>\<open>fuzzer_coverage\<close> lacks, and
  \<^verbatim>\<open>fuzzer_coverage\<close> grows by the union. When the first result is not \<^verbatim>\<open>OK\<close> or
  the first coverage is empty, \<^verbatim>\<open>RunSample\<close> returns the first result after this one
  run; when a retry is the first run that is not \<^verbatim>\<open>OK\<close>, it returns the result of
  that retry, which is its last run. In both cases the sample is not offered:
  \<^verbatim>\<open>fuzzer_coverage\<close>, the queue, \<^verbatim>\<open>all_samples\<close> and \<^verbatim>\<open>num_samples\<close> are as
  before and no new coverage is reported.
\<close>

theorem RunSample_stabilisation:
  "((\<forall>k\<le>SAMPLE_RETRY_TIMES K.
        result (target tc (executions tc + k) s) = OK \<and>
        (delivered (target tc (executions tc + k) s) \<or>
         redelivered (target tc (executions tc + k) s))) \<and>
    coverage (target tc (executions tc) s) \<noteq> {} \<longrightarrow>
      RunSample K st tc s trim report_to_server =
        offer_sample K
          (st\<lparr>total_execs := total_execs st + of_nat (Suc (SAMPLE_RETRY_TIMES K))\<rparr>)
          (tc\<lparr>executions := executions tc + Suc (SAMPLE_RETRY_TIMES K),
              trace := trace tc @
                map (\<lambda>k. (s, OK, coverage (target tc (executions tc + k) s)))
                  [0..<Suc (SAMPLE_RETRY_TIMES K)]\<rparr>)
          s OK
          (\<Inter>k\<le>SAMPLE_RETRY_TIMES K. coverage (target tc (executions tc + k) s))
          ((\<Union>k\<le>SAMPLE_RETRY_TIMES K. coverage (target tc (executions tc + k) s)) -
           (\<Inter>k\<le>SAMPLE_RETRY_TIMES K. coverage (target tc (executions tc + k) s)))
          (\<Union>k\<le>SAMPLE_RETRY_TIMES K. coverage (target tc (executions tc + k) s))
          trim report_to_server
      \<and> (RunSample K st tc s trim report_to_server = Inr (r, h, st', tc') \<longrightarrow>
           r = OK \<and>
           (h \<noteq> 0) =
             ((\<Inter>k\<le>SAMPLE_RETRY_TIMES K. coverage (target tc (executions tc + k) s))
                - fuzzer_coverage st \<noteq> {}) \<and>
           fuzzer_coverage st' =
             fuzzer_coverage st \<union>
             (\<Union>k\<le>SAMPLE_RETRY_TIMES K. coverage (target tc (executions tc + k) s))))
   \<and> ((result (target tc (executions tc) s) \<noteq> OK \<or> coverage (target tc (executions tc) s) = {}) \<and>
       RunSample K st tc s trim report_to_server = Inr (r, h, st', tc') \<longrightarrow>
        r = result (target tc (executions tc) s) \<and> h = 0 \<and>
        fuzzer_coverage st' = fuzzer_coverage st \<and> sample_queue st' = sample_queue st \<and>
        all_samples st' = all_samples st \<and> num_samples st' = num_samples st \<and>
        length (trace tc') = length (trace tc) + 1)
   \<and> ((\<forall>k<j. result (target tc (executions tc + k) s) = OK \<and>
              (delivered (target tc (executions tc + k) s) \<or>
               redelivered (target tc (executions tc + k) s))) \<and>
       coverage (target tc (executions tc) s) \<noteq> {} \<and>
       0 < j \<and> j \<le> SAMPLE_RETRY_TIMES K \<and>
       result (target tc (executions tc + j) s) \<noteq> OK \<and>
       RunSample K st tc s trim report_to_server = Inr (r, h, st', tc') \<longrightarrow>
        r = result (target tc (executions tc + j) s) \<and> h = 0 \<and>
        fuzzer_coverage st' = fuzzer_coverage st \<and> sample_queue st' = sample_queue st \<and>
        all_samples st' = all_samples st \<and> num_samples st' = num_samples st \<and>
        length (trace tc') = length (trace tc) + j + 1)"
proof (rule conjI [OF _ conjI])
  let ?N = "SAMPLE_RETRY_TIMES K"
  let ?I = "\<Inter>k\<le>?N. coverage (target tc (executions tc + k) s)"
  let ?U = "\<Union>k\<le>?N. coverage (target tc (executions tc + k) s)"
  let ?stn = "st\<lparr>total_execs := total_execs st + of_nat (Suc ?N)\<rparr>"
  let ?tcn = "tc\<lparr>executions := executions tc + Suc ?N,
              trace := trace tc @
                map (\<lambda>k. (s, OK, coverage (target tc (executions tc + k) s))) [0..<Suc ?N]\<rparr>"
  show "(\<forall>k\<le>?N. result (target tc (executions tc + k) s) = OK \<and>
        (delivered (target tc (executions tc + k) s) \<or>
         redelivered (target tc (executions tc + k) s))) \<and>
    coverage (target tc (executions tc) s) \<noteq> {} \<longrightarrow>
      RunSample K st tc s trim report_to_server =
        offer_sample K ?stn ?tcn s OK ?I (?U - ?I) ?U trim report_to_server
      \<and> (RunSample K st tc s trim report_to_server = Inr (r, h, st', tc') \<longrightarrow>
           r = OK \<and> (h \<noteq> 0) = (?I - fuzzer_coverage st \<noteq> {}) \<and>
           fuzzer_coverage st' = fuzzer_coverage st \<union> ?U)"
  proof (intro impI, elim conjE)
    assume ok: "\<forall>k\<le>?N. result (target tc (executions tc + k) s) = OK \<and>
        (delivered (target tc (executions tc + k) s) \<or>
         redelivered (target tc (executions tc + k) s))"
      and ne: "coverage (target tc (executions tc) s) \<noteq> {}"
    have ne0: "coverage (target tc (executions tc + 0) s) \<noteq> {}" using ne by simp
    have eq: "RunSample K st tc s trim report_to_server =
        offer_sample K ?stn ?tcn s OK ?I (?U - ?I) ?U trim report_to_server"
      using RunSample_all_OK [OF ok ne0] .
    have sub: "?I \<subseteq> ?U" by auto
    have rest: "r = OK \<and> (h \<noteq> 0) = (?I - fuzzer_coverage st \<noteq> {}) \<and>
           fuzzer_coverage st' = fuzzer_coverage st \<union> ?U"
      if res: "RunSample K st tc s trim report_to_server = Inr (r, h, st', tc')"
    proof -
      have "offer_sample K ?stn ?tcn s OK ?I (?U - ?I) ?U trim report_to_server = Inr (r, h, st', tc')"
        using res eq by simp
      from offer_sample_result [OF this]
      have "r = OK" "(h \<noteq> 0) = (?I - fuzzer_coverage st \<noteq> {})"
        "fuzzer_coverage st' =
           fuzzer_coverage st \<union> (?I - fuzzer_coverage st) \<union> ((?U - ?I) - fuzzer_coverage st)"
        by simp_all
      moreover have "fuzzer_coverage st \<union> (?I - fuzzer_coverage st) \<union> ((?U - ?I) - fuzzer_coverage st)
                     = fuzzer_coverage st \<union> ?U"
        using sub by blast
      ultimately show ?thesis by simp
    qed
    show "RunSample K st tc s trim report_to_server =
        offer_sample K ?stn ?tcn s OK ?I (?U - ?I) ?U trim report_to_server
      \<and> (RunSample K st tc s trim report_to_server = Inr (r, h, st', tc') \<longrightarrow>
           r = OK \<and> (h \<noteq> 0) = (?I - fuzzer_coverage st \<noteq> {}) \<and>
           fuzzer_coverage st' = fuzzer_coverage st \<union> ?U)"
      using eq rest by blast
  qed
next
  show "(result (target tc (executions tc) s) \<noteq> OK \<or> coverage (target tc (executions tc) s) = {}) \<and>
       RunSample K st tc s trim report_to_server = Inr (r, h, st', tc') \<longrightarrow>
        r = result (target tc (executions tc) s) \<and> h = 0 \<and>
        fuzzer_coverage st' = fuzzer_coverage st \<and> sample_queue st' = sample_queue st \<and>
        all_samples st' = all_samples st \<and> num_samples st' = num_samples st \<and>
        length (trace tc') = length (trace tc) + 1"
  proof (intro impI, elim conjE)
    assume b: "result (target tc (executions tc) s) \<noteq> OK \<or> coverage (target tc (executions tc) s) = {}"
      and res: "RunSample K st tc s trim report_to_server = Inr (r, h, st', tc')"
    have b0: "result (target tc (executions tc + 0) s) \<noteq> OK \<or>
              coverage (target tc (executions tc + 0) s) = {}" using b by simp
    note e = RunSample_early [OF b0 res]
    have fr: "run_frame st' = run_frame st" using e by blast
    show "r = result (target tc (executions tc) s) \<and> h = 0 \<and>
        fuzzer_coverage st' = fuzzer_coverage st \<and> sample_queue st' = sample_queue st \<and>
        all_samples st' = all_samples st \<and> num_samples st' = num_samples st \<and>
        length (trace tc') = length (trace tc) + 1"
      using e run_frame_fields [OF fr] by simp
  qed
next
  show "(\<forall>k<j. result (target tc (executions tc + k) s) = OK \<and>
              (delivered (target tc (executions tc + k) s) \<or>
               redelivered (target tc (executions tc + k) s))) \<and>
       coverage (target tc (executions tc) s) \<noteq> {} \<and>
       0 < j \<and> j \<le> SAMPLE_RETRY_TIMES K \<and>
       result (target tc (executions tc + j) s) \<noteq> OK \<and>
       RunSample K st tc s trim report_to_server = Inr (r, h, st', tc') \<longrightarrow>
        r = result (target tc (executions tc + j) s) \<and> h = 0 \<and>
        fuzzer_coverage st' = fuzzer_coverage st \<and> sample_queue st' = sample_queue st \<and>
        all_samples st' = all_samples st \<and> num_samples st' = num_samples st \<and>
        length (trace tc') = length (trace tc) + j + 1"
  proof (intro impI, elim conjE)
    assume ok: "\<forall>k<j. result (target tc (executions tc + k) s) = OK \<and>
              (delivered (target tc (executions tc + k) s) \<or>
               redelivered (target tc (executions tc + k) s))"
      and ne: "coverage (target tc (executions tc) s) \<noteq> {}"
      and j: "0 < j" "j \<le> SAMPLE_RETRY_TIMES K"
      and bad: "result (target tc (executions tc + j) s) \<noteq> OK"
      and res: "RunSample K st tc s trim report_to_server = Inr (r, h, st', tc')"
    have ne0: "coverage (target tc (executions tc + 0) s) \<noteq> {}" using ne by simp
    note e = RunSample_retry_fails [OF ok ne0 j bad res]
    have fr: "run_frame st' = run_frame st" using e by blast
    show "r = result (target tc (executions tc + j) s) \<and> h = 0 \<and>
        fuzzer_coverage st' = fuzzer_coverage st \<and> sample_queue st' = sample_queue st \<and>
        all_samples st' = all_samples st \<and> num_samples st' = num_samples st \<and>
        length (trace tc') = length (trace tc) + j + 1"
      using e run_frame_fields [OF fr] by simp
  qed
qed

lemma offer_sample_no_trim:
  "\<exists>h st' tc'. offer_sample K st tc s r S V T False report_to_server = Inr (r, h, st', tc')"
  by (simp add: offer_sample_def Let_def split: prod.splits)

theorem RunSample_stabilisation_witness:
  "(\<exists>h st' tc'.
      RunSample small_constants (Run_init [''out''] [] None)
        (new_worker (scripted_target
           [ok_run {(''m'', 1), (''m'', 2)}, ok_run {(''m'', 1)}, ok_run {(''m'', 1), (''m'', 3)}]))
        [5] False False = Inr (OK, h, st', tc')
      \<and> h \<noteq> 0 \<and> fuzzer_coverage st' = {(''m'', 1), (''m'', 2), (''m'', 3)})
   \<and> (\<exists>st' tc'.
        RunSample small_constants (Run_init [''out''] [] None) (new_worker hanging_target)
          [5] False False = Inr (HANG, 0, st', tc')
        \<and> fuzzer_coverage st' = {} \<and> sample_queue st' = [] \<and> num_samples st' = 0
        \<and> length (trace tc') = 1)
   \<and> (\<exists>st' tc'.
        RunSample small_constants (Run_init [''out''] [] None)
          (new_worker (scripted_target [ok_run {(''m'', 1)}, hang_run {}]))
          [5] False False = Inr (HANG, 0, st', tc')
        \<and> fuzzer_coverage st' = {} \<and> sample_queue st' = [] \<and> num_samples st' = 0
        \<and> length (trace tc') = 2)"
proof (intro conjI)
  let ?K = small_constants
  let ?st = "Run_init [''out''] [] None"
  let ?sa = "[ok_run {(''m'', 1 :: nat), (''m'', 2)}, ok_run {(''m'', 1)}, ok_run {(''m'', 1), (''m'', 3)}]"
  let ?ta = "new_worker (scripted_target ?sa)"
  have N: "SAMPLE_RETRY_TIMES ?K = 2" by (simp add: small_constants_sel)
  have at: "{..2 :: nat} = {0, 1, 2}" by auto
  have ok: "\<forall>k\<le>SAMPLE_RETRY_TIMES ?K.
        result (target ?ta (executions ?ta + k) [5]) = OK \<and>
        (delivered (target ?ta (executions ?ta + k) [5]) \<or>
         redelivered (target ?ta (executions ?ta + k) [5]))"
  proof (intro allI impI)
    fix k assume "k \<le> SAMPLE_RETRY_TIMES ?K"
    then have "k = 0 \<or> k = 1 \<or> k = 2" unfolding N by auto
    then show "result (target ?ta (executions ?ta + k) [5]) = OK \<and>
        (delivered (target ?ta (executions ?ta + k) [5]) \<or>
         redelivered (target ?ta (executions ?ta + k) [5]))"
      by (auto simp: new_worker_sel scripted_target_def ok_run_def)
  qed
  have ne: "coverage (target ?ta (executions ?ta) [5]) \<noteq> {}"
    by (simp add: new_worker_sel scripted_target_def ok_run_def)
  have I: "(\<Inter>k\<le>SAMPLE_RETRY_TIMES ?K. coverage (target ?ta (executions ?ta + k) [5])) = {(''m'', 1)}"
    unfolding N at by (auto simp: new_worker_sel scripted_target_def ok_run_def)
  have U: "(\<Union>k\<le>SAMPLE_RETRY_TIMES ?K. coverage (target ?ta (executions ?ta + k) [5])) =
           {(''m'', 1), (''m'', 2), (''m'', 3)}"
    unfolding N at by (auto simp: new_worker_sel scripted_target_def ok_run_def)
  note tha = RunSample_stabilisation [where K = ?K and st = ?st and tc = ?ta and s = "[5]"
      and trim = False and report_to_server = False, THEN conjunct1, rule_format, OF conjI [OF ok ne]]
  obtain h st' tc' where ra: "RunSample ?K ?st ?ta [5] False False = Inr (OK, h, st', tc')"
    using tha [THEN conjunct1] offer_sample_no_trim by metis
  have "h \<noteq> 0 \<and> fuzzer_coverage st' = {(''m'', 1), (''m'', 2), (''m'', 3)}"
    using RunSample_stabilisation [where K = ?K and st = ?st and tc = ?ta and s = "[5]"
      and trim = False and report_to_server = False and r = OK and h = h and st' = st' and tc' = tc',
      THEN conjunct1, rule_format, OF conjI [OF ok ne], THEN conjunct2, rule_format, OF ra]
    unfolding I U by (simp add: Run_init_sel)
  then show "\<exists>h st' tc'. RunSample ?K ?st ?ta [5] False False = Inr (OK, h, st', tc')
      \<and> h \<noteq> 0 \<and> fuzzer_coverage st' = {(''m'', 1), (''m'', 2), (''m'', 3)}"
    using ra by blast
next
  let ?K = small_constants
  let ?st = "Run_init [''out''] [] None"
  let ?tb = "new_worker hanging_target"
  have b: "result (target ?tb (executions ?tb) [5]) \<noteq> OK \<or> coverage (target ?tb (executions ?tb) [5]) = {}"
    by (simp add: new_worker_sel hanging_target_def)
  have hg: "result (target ?tb (executions ?tb) [5]) = HANG"
    "delivered (target ?tb (executions ?tb) [5]) \<or> redelivered (target ?tb (executions ?tb) [5])"
    by (simp_all add: new_worker_sel hanging_target_def)
  obtain st' tc' where rb: "RunSample ?K ?st ?tb [5] False False = Inr (HANG, 0, st', tc')"
    by (simp add: RunSample_unfold RunSampleAndGetCoverage_HANG [OF hg])
  have "HANG = result (target ?tb (executions ?tb) [5]) \<and> (0::int) = 0 \<and>
        fuzzer_coverage st' = fuzzer_coverage ?st \<and> sample_queue st' = sample_queue ?st \<and>
        all_samples st' = all_samples ?st \<and> num_samples st' = num_samples ?st \<and>
        length (trace tc') = length (trace ?tb) + 1"
    using RunSample_stabilisation [where K = ?K and st = ?st and tc = ?tb and s = "[5]"
      and trim = False and report_to_server = False and r = HANG and h = 0 and st' = st' and tc' = tc',
      THEN conjunct2, THEN conjunct1, rule_format, OF conjI [OF b rb]] .
  then show "\<exists>st' tc'. RunSample ?K ?st ?tb [5] False False = Inr (HANG, 0, st', tc')
        \<and> fuzzer_coverage st' = {} \<and> sample_queue st' = [] \<and> num_samples st' = 0
        \<and> length (trace tc') = 1"
    using rb by (simp add: Run_init_sel new_worker_sel)
next
  let ?K = small_constants
  let ?st = "Run_init [''out''] [] None"
  let ?sc = "[ok_run {(''m'', 1 :: nat)}, hang_run {}]"
  let ?tc = "new_worker (scripted_target ?sc)"
  have ok: "\<forall>k<1. result (target ?tc (executions ?tc + k) [5]) = OK \<and>
        (delivered (target ?tc (executions ?tc + k) [5]) \<or>
         redelivered (target ?tc (executions ?tc + k) [5]))"
    by (simp add: new_worker_sel scripted_target_def ok_run_def)
  have ne: "coverage (target ?tc (executions ?tc) [5]) \<noteq> {}"
    by (simp add: new_worker_sel scripted_target_def ok_run_def)
  have j: "(0::nat) < 1" "1 \<le> SAMPLE_RETRY_TIMES ?K"
    by (simp_all add: small_constants_sel)
  have bad: "result (target ?tc (executions ?tc + 1) [5]) \<noteq> OK"
    by (simp add: new_worker_sel scripted_target_def hang_run_def)
  have e0: "result (target ?tc (executions ?tc) [5]) = OK"
    "delivered (target ?tc (executions ?tc) [5]) \<or> redelivered (target ?tc (executions ?tc) [5])"
    by (simp_all add: new_worker_sel scripted_target_def ok_run_def)
  let ?tc1 = "?tc\<lparr>executions := executions ?tc + 1,
                  trace := trace ?tc @ [([5], OK, coverage (target ?tc (executions ?tc) [5]))]\<rparr>"
  have e1: "result (target ?tc1 (executions ?tc1) [5]) = HANG"
    "delivered (target ?tc1 (executions ?tc1) [5]) \<or> redelivered (target ?tc1 (executions ?tc1) [5])"
    by (simp_all add: new_worker_sel scripted_target_def hang_run_def)
  define st1 where "st1 = ?st\<lparr>total_execs := total_execs ?st + 1\<rparr>"
  define tc1 where "tc1 = ?tc1"
  define c0 where "c0 = coverage (target ?tc (executions ?tc) [5])"
  have r0: "RunSampleAndGetCoverage ?K ?st ?tc [5] = Inr (OK, c0, st1, tc1)"
    unfolding st1_def tc1_def c0_def by (rule RunSampleAndGetCoverage_OK [OF e0])
  have "\<exists>c st2 tc2. RunSampleAndGetCoverage ?K st1 tc1 [5] = Inr (HANG, c, st2, tc2)"
    unfolding tc1_def RunSampleAndGetCoverage_HANG [OF e1] by blast
  then obtain c st' tc' where r1: "RunSampleAndGetCoverage ?K st1 tc1 [5] = Inr (HANG, c, st', tc')"
    by blast
  have N2: "SAMPLE_RETRY_TIMES ?K = Suc (Suc 0)" by (simp add: small_constants_sel)
  have rl: "retry_loop ?K (SAMPLE_RETRY_TIMES ?K) st1 tc1 [5] OK c0 c0 = Inr (Inl (HANG, st', tc'))"
    unfolding N2 retry_loop.simps r1 by simp
  have c0: "c0 \<noteq> {}" using ne unfolding c0_def .
  have rc: "RunSample ?K ?st ?tc [5] False False = Inr (HANG, 0, st', tc')"
    unfolding RunSample_unfold r0 using c0 by (simp add: rl)
  have "HANG = result (target ?tc (executions ?tc + 1) [5]) \<and> (0::int) = 0 \<and>
        fuzzer_coverage st' = fuzzer_coverage ?st \<and> sample_queue st' = sample_queue ?st \<and>
        all_samples st' = all_samples ?st \<and> num_samples st' = num_samples ?st \<and>
        length (trace tc') = length (trace ?tc) + 1 + 1"
    using RunSample_stabilisation [where K = ?K and st = ?st and tc = ?tc and s = "[5]" and j = 1
      and trim = False and report_to_server = False and r = HANG and h = 0 and st' = st' and tc' = tc',
      THEN conjunct2, THEN conjunct2, rule_format,
      OF conjI [OF ok conjI [OF ne conjI [OF j(1) conjI [OF j(2) conjI [OF bad rc]]]]]] .
  then show "\<exists>st' tc'. RunSample ?K ?st ?tc [5] False False = Inr (HANG, 0, st', tc')
        \<and> fuzzer_coverage st' = {} \<and> sample_queue st' = [] \<and> num_samples st' = 0
        \<and> length (trace tc') = 2"
    using rc by (simp add: Run_init_sel new_worker_sel)
qed

subsection \<open>InterestingSample\<close>

text \<open>
  C1. \<^verbatim>\<open>InterestingSample\<close> computes the stable and the variable coverage that
  \<^verbatim>\<open>fuzzer_coverage\<close> does not have yet, merges both into \<^verbatim>\<open>fuzzer_coverage\<close>,
  hands both differences back in place of the caller's sets, and returns true exactly
  when the new stable coverage is not empty. When only the variable difference is not
  empty it returns false, and \<^verbatim>\<open>RunSample\<close>, which offers the sample in
  \<open>offer_sample\<close>, then reports no new coverage and leaves the queue,
  \<^verbatim>\<open>all_samples\<close> and \<^verbatim>\<open>num_samples\<close> as they were.
\<close>

theorem InterestingSample_result:
  "InterestingSample st sc vc =
     (if sc - fuzzer_coverage st \<noteq> {} then 1 else 0,
      sc - fuzzer_coverage st,
      vc - fuzzer_coverage st,
      st\<lparr>fuzzer_coverage :=
           fuzzer_coverage st \<union> (sc - fuzzer_coverage st) \<union> (vc - fuzzer_coverage st)\<rparr>)
   \<and> ((fst (InterestingSample st sc vc) \<noteq> 0) = (sc - fuzzer_coverage st \<noteq> {}))
   \<and> (vc - fuzzer_coverage st \<noteq> {} \<and> sc - fuzzer_coverage st = {} \<longrightarrow>
        fst (InterestingSample st sc vc) = 0)
   \<and> (sc - fuzzer_coverage st = {} \<and>
       offer_sample K st tc s r sc vc T trim report_to_server = Inr (r', h, st', tc') \<longrightarrow>
        h = 0 \<and> sample_queue st' = sample_queue st \<and> all_samples st' = all_samples st \<and>
        num_samples st' = num_samples st \<and>
        fuzzer_coverage st' = fuzzer_coverage st \<union> (vc - fuzzer_coverage st))"
proof (intro conjI)
  show "InterestingSample st sc vc =
     (if sc - fuzzer_coverage st \<noteq> {} then 1 else 0,
      sc - fuzzer_coverage st,
      vc - fuzzer_coverage st,
      st\<lparr>fuzzer_coverage :=
           fuzzer_coverage st \<union> (sc - fuzzer_coverage st) \<union> (vc - fuzzer_coverage st)\<rparr>)"
    by (simp add: InterestingSample_def CoverageDifference_def MergeCoverage_def Let_def)
  show "(fst (InterestingSample st sc vc) \<noteq> 0) = (sc - fuzzer_coverage st \<noteq> {})"
    by (simp add: InterestingSample_def CoverageDifference_def MergeCoverage_def Let_def)
  show "vc - fuzzer_coverage st \<noteq> {} \<and> sc - fuzzer_coverage st = {} \<longrightarrow>
        fst (InterestingSample st sc vc) = 0"
    by (simp add: InterestingSample_def CoverageDifference_def MergeCoverage_def Let_def)
  show "sc - fuzzer_coverage st = {} \<and>
       offer_sample K st tc s r sc vc T trim report_to_server = Inr (r', h, st', tc') \<longrightarrow>
        h = 0 \<and> sample_queue st' = sample_queue st \<and> all_samples st' = all_samples st \<and>
        num_samples st' = num_samples st \<and>
        fuzzer_coverage st' = fuzzer_coverage st \<union> (vc - fuzzer_coverage st)"
  proof (intro impI, elim conjE)
    assume e: "sc - fuzzer_coverage st = {}"
      and o: "offer_sample K st tc s r sc vc T trim report_to_server = Inr (r', h, st', tc')"
    note f = offer_sample_result [OF o]
    have h: "h = 0" using f e by simp
    show "h = 0 \<and> sample_queue st' = sample_queue st \<and> all_samples st' = all_samples st \<and>
        num_samples st' = num_samples st \<and>
        fuzzer_coverage st' = fuzzer_coverage st \<union> (vc - fuzzer_coverage st)"
      using f e h by simp
  qed
qed

theorem InterestingSample_result_witness:
  "{(''m'', 2)} - fuzzer_coverage ((Run_init [''out''] [] None)\<lparr>fuzzer_coverage := {(''m'', 1)}\<rparr>) \<noteq> {}
   \<and> {(''m'', 1)} - fuzzer_coverage ((Run_init [''out''] [] None)\<lparr>fuzzer_coverage := {(''m'', 1)}\<rparr>) = {}
   \<and> fst (InterestingSample ((Run_init [''out''] [] None)\<lparr>fuzzer_coverage := {(''m'', 1)}\<rparr>)
        {(''m'', 1)} {(''m'', 2)}) = 0
   \<and> fuzzer_coverage (snd (snd (snd (InterestingSample
        ((Run_init [''out''] [] None)\<lparr>fuzzer_coverage := {(''m'', 1)}\<rparr>) {(''m'', 1)} {(''m'', 2)}))))
      = {(''m'', 1), (''m'', 2)}
   \<and> (\<exists>h st' tc'.
        offer_sample small_constants ((Run_init [''out''] [] None)\<lparr>fuzzer_coverage := {(''m'', 1)}\<rparr>)
          (new_worker hanging_target) [5] OK {(''m'', 1)} {(''m'', 2)} {(''m'', 1), (''m'', 2)}
          False False = Inr (OK, h, st', tc')
        \<and> h = 0 \<and> sample_queue st' = [] \<and> all_samples st' = [] \<and> num_samples st' = 0
        \<and> fuzzer_coverage st' = {(''m'', 1), (''m'', 2)})"
proof -
  let ?st = "(Run_init [''out''] [] None)\<lparr>fuzzer_coverage := {(''m'', 1 :: nat)}\<rparr>"
  let ?tc = "new_worker hanging_target"
  note th = InterestingSample_result [where st = ?st and sc = "{(''m'', 1)}" and vc = "{(''m'', 2)}"]
  have a: "{(''m'', 2 :: nat)} - fuzzer_coverage ?st \<noteq> {}" "{(''m'', 1 :: nat)} - fuzzer_coverage ?st = {}"
    by simp_all
  have b: "fst (InterestingSample ?st {(''m'', 1)} {(''m'', 2)}) = 0"
    using th [THEN conjunct2, THEN conjunct2, THEN conjunct1, rule_format, OF conjI [OF a]] .
  have c: "fuzzer_coverage (snd (snd (snd (InterestingSample ?st {(''m'', 1)} {(''m'', 2)}))))
           = {(''m'', 1), (''m'', 2)}"
    unfolding th [THEN conjunct1] by auto
  obtain h st' tc' where o: "offer_sample small_constants ?st ?tc [5] OK {(''m'', 1)} {(''m'', 2)}
          {(''m'', 1), (''m'', 2)} False False = Inr (OK, h, st', tc')"
    using offer_sample_no_trim by blast
  have "h = 0 \<and> sample_queue st' = sample_queue ?st \<and> all_samples st' = all_samples ?st \<and>
        num_samples st' = num_samples ?st \<and>
        fuzzer_coverage st' = fuzzer_coverage ?st \<union> ({(''m'', 2)} - fuzzer_coverage ?st)"
    using InterestingSample_result [where st = ?st and sc = "{(''m'', 1)}" and vc = "{(''m'', 2)}"
        and K = small_constants and tc = ?tc and s = "[5]" and r = OK
        and T = "{(''m'', 1), (''m'', 2)}" and trim = False and report_to_server = False
        and r' = OK and h = h and st' = st' and tc' = tc',
        THEN conjunct2, THEN conjunct2, THEN conjunct2, rule_format, OF conjI [OF a(2) o]] .
  then have d: "h = 0 \<and> sample_queue st' = [] \<and> all_samples st' = [] \<and> num_samples st' = 0
        \<and> fuzzer_coverage st' = {(''m'', 1), (''m'', 2)}"
    by (auto simp: Run_init_sel)
  show ?thesis using a b c o d by blast
qed

end
